theory Spec2Isabelle
  imports Complex_Main "HOL-Library.Multiset"
begin

section \<open>Common data: Python errors and the NumPy random generator\<close>

text \<open>
  The functions of \<^verbatim>\<open>smpfunc.py\<close> are embedded as HOL functions. NumPy's 64-bit floats
  are idealised as real numbers (no rounding error, no overflow); where a float can be NaN
  or infinite (the cells of a table, a statistic) it has the type \<open>fl\<close> defined below.
  Every exception the Python raises is a value \<open>Inl e\<close> of a sum type, and a call that
  never returns is \<open>None\<close> of an outer \<open>option\<close>. \<open>OutsideModel\<close> is not a Python exception:
  it marks the few inputs about which the model says nothing.
\<close>

datatype error =
    IndexError | KeyError | ValueError | AttributeError | TypeError | ZeroDivisionError
  | OutsideModel

text \<open>
  \<^verbatim>\<open>np.random\<close> is one global generator shared by the whole process. Its state is
  modelled by the results it is going to deliver: call number \<open>k\<close> (counted from the
  creation of the generator) returns \<open>perm_at g k n\<close> when it is
  \<^verbatim>\<open>np.random.choice(n, n, replace=False)\<close> and is based on the sample \<open>unif_at g k\<close> of
  \<open>[0, 1)\<close> when it is \<^verbatim>\<open>np.random.uniform\<close>; \<open>ncalls\<close> counts the calls made so far.
\<close>

record rng =
  perm_at :: "nat \<Rightarrow> nat \<Rightarrow> nat list"
  unif_at :: "nat \<Rightarrow> real"
  ncalls :: nat

definition rng_ok :: "rng \<Rightarrow> bool" where
  "rng_ok g \<longleftrightarrow>
     (\<forall>k n. mset (perm_at g k n) = mset [0..<n]) \<and> (\<forall>k. 0 \<le> unif_at g k \<and> unif_at g k < 1)"

definition np_random_choice :: "rng \<Rightarrow> int \<Rightarrow> error + (nat list \<times> rng)" where
  \<comment> \<open>\<^verbatim>\<open>np.random.choice(a, a, replace=False)\<close>: a negative population raises ValueError.\<close>
  "np_random_choice g a =
     (if a < 0 then Inl ValueError
      else Inr (perm_at g (ncalls g) (nat a), g\<lparr>ncalls := Suc (ncalls g)\<rparr>))"

definition np_random_uniform :: "rng \<Rightarrow> real \<Rightarrow> real \<Rightarrow> real \<times> rng" where
  \<comment> \<open>\<^verbatim>\<open>np.random.uniform(low, high)\<close> is \<open>low + (high - low) * u\<close> for a sample \<open>u\<close> of
      \<open>[0, 1)\<close>; NumPy defines it for \<open>low \<le> high\<close>.\<close>
  "np_random_uniform g low high =
     (low + (high - low) * unif_at g (ncalls g), g\<lparr>ncalls := Suc (ncalls g)\<rparr>)"

definition np_argsort :: "nat list \<Rightarrow> nat list" where
  "np_argsort xs = map snd (sort_key fst (zip xs [0..<length xs]))"

definition fancy_index :: "'a list \<Rightarrow> nat list \<Rightarrow> error + 'a list" where
  \<comment> \<open>\<^verbatim>\<open>xs[idx]\<close> for an integer index array.\<close>
  "fancy_index xs idx =
     (if \<forall>i \<in> set idx. i < length xs then Inr (map (\<lambda>i. xs ! i) idx) else Inl IndexError)"

section \<open>ScalingCandidateGenerator: \<^verbatim>\<open>random_scaling\<close>\<close>

text \<open>The \<^verbatim>\<open>for layer in np.arange(0, len(layer_order))\<close> loop: one uniform draw per layer.\<close>

fun draw_stretch :: "nat \<Rightarrow> rng \<Rightarrow> real \<Rightarrow> real list \<Rightarrow> real list \<times> rng" where
  "draw_stretch 0 g max_change_layer layer_stretch = (layer_stretch, g)"
| "draw_stretch (Suc k) g max_change_layer layer_stretch =
     (case np_random_uniform g (- max_change_layer) max_change_layer of
        (u, g') \<Rightarrow> draw_stretch k g' max_change_layer (layer_stretch @ [u]))"

text \<open>
  The \<^verbatim>\<open>while True\<close> loop. It has no bound on the number of rounds, so it is a partial
  function: \<open>None\<close> is a run that never leaves the loop.
\<close>

partial_function (option) random_scaling_loop ::
  "rng \<Rightarrow> int \<Rightarrow> real \<Rightarrow> real \<Rightarrow> (error + (nat list \<times> real list \<times> rng)) option" where
  "random_scaling_loop g layer_num max_change max_change_layer =
     (case np_random_choice g layer_num of
        Inl e \<Rightarrow> Some (Inl e)
      | Inr (layer_order, g1) \<Rightarrow>
          (case draw_stretch (length layer_order) g1 max_change_layer [] of
             (layer_stretch, g2) \<Rightarrow>
               if \<bar>sum_list layer_stretch\<bar> \<le> max_change
               then Some (Inr (layer_order, layer_stretch, g2))
               else random_scaling_loop g2 layer_num max_change max_change_layer))"

definition random_scaling ::
  "rng \<Rightarrow> int \<Rightarrow> real \<Rightarrow> real \<Rightarrow> (error + (real list \<times> rng)) option" where
  "random_scaling g layer_num max_change max_change_layer =
     (case random_scaling_loop g layer_num max_change max_change_layer of
        None \<Rightarrow> None
      | Some (Inl e) \<Rightarrow> Some (Inl e)
      | Some (Inr (layer_order, layer_stretch, g')) \<Rightarrow>
          (case fancy_index layer_stretch (np_argsort layer_order) of
             Inl e \<Rightarrow> Some (Inl e)
           | Inr v \<Rightarrow> Some (Inr (v, g'))))"

text \<open>One round of the loop, and the generator after \<open>k\<close> rejected rounds.\<close>

definition attempt :: "rng \<Rightarrow> nat \<Rightarrow> real \<Rightarrow> real list \<times> rng" where
  "attempt g n max_change_layer =
     draw_stretch (length (perm_at g (ncalls g) n)) (g\<lparr>ncalls := Suc (ncalls g)\<rparr>)
       max_change_layer []"

fun after_rounds :: "nat \<Rightarrow> rng \<Rightarrow> nat \<Rightarrow> real \<Rightarrow> rng" where
  "after_rounds 0 g n max_change_layer = g"
| "after_rounds (Suc k) g n max_change_layer =
     after_rounds k (snd (attempt g n max_change_layer)) n max_change_layer"

definition within_budget :: "rng \<Rightarrow> nat \<Rightarrow> real \<Rightarrow> real \<Rightarrow> bool" where
  "within_budget g n max_change max_change_layer \<longleftrightarrow>
     \<bar>sum_list (fst (attempt g n max_change_layer))\<bar> \<le> max_change"

definition round_result :: "rng \<Rightarrow> nat \<Rightarrow> real \<Rightarrow> nat list \<times> real list \<times> rng" where
  "round_result g n max_change_layer =
     (perm_at g (ncalls g) n, fst (attempt g n max_change_layer),
      snd (attempt g n max_change_layer))"

text \<open>A concrete generator for the examples: reversed orders, samples 1/4, 3/4, 1/4, ...\<close>

definition g0 :: rng where
  "g0 = \<lparr>perm_at = (\<lambda>k n. rev [0..<n]), unif_at = (\<lambda>k. if even k then 1/4 else 3/4),
          ncalls = 0\<rparr>"

section \<open>Floats with special values, and data frames\<close>

text \<open>
  A float of a table or of a statistic is a finite real, NaN or an infinity; the
  arithmetic on the special values follows IEEE 754 as NumPy exposes it.
\<close>

datatype fl = Fin real | NaN | PInf | NInf

fun fneg :: "fl \<Rightarrow> fl" where
  "fneg (Fin x) = Fin (- x)"
| "fneg NaN = NaN"
| "fneg PInf = NInf"
| "fneg NInf = PInf"

fun fadd :: "fl \<Rightarrow> fl \<Rightarrow> fl" where
  "fadd (Fin x) (Fin y) = Fin (x + y)"
| "fadd NaN b = NaN"
| "fadd a NaN = NaN"
| "fadd PInf NInf = NaN"
| "fadd NInf PInf = NaN"
| "fadd PInf b = PInf"
| "fadd a PInf = PInf"
| "fadd NInf b = NInf"
| "fadd a NInf = NInf"

definition fsub :: "fl \<Rightarrow> fl \<Rightarrow> fl" where
  "fsub a b = fadd a (fneg b)"

fun fsign :: "fl \<Rightarrow> real" where
  "fsign (Fin x) = sgn x"
| "fsign PInf = 1"
| "fsign NInf = - 1"
| "fsign NaN = 0"

fun fmul :: "fl \<Rightarrow> fl \<Rightarrow> fl" where
  "fmul (Fin x) (Fin y) = Fin (x * y)"
| "fmul NaN b = NaN"
| "fmul a NaN = NaN"
| "fmul a b =
     (if fsign a * fsign b = 0 then NaN else if 0 < fsign a * fsign b then PInf else NInf)"

fun fdiv_count :: "fl \<Rightarrow> nat \<Rightarrow> fl" where
  \<comment> \<open>division of a float by a positive count\<close>
  "fdiv_count (Fin x) n = Fin (x / real n)"
| "fdiv_count a n = a"

fun np_log :: "fl \<Rightarrow> fl" where
  "np_log (Fin x) = (if 0 < x then Fin (ln x) else if x = 0 then NInf else NaN)"
| "np_log PInf = PInf"
| "np_log a = NaN"

fun np_sqrt :: "fl \<Rightarrow> fl" where
  "np_sqrt (Fin x) = (if 0 \<le> x then Fin (sqrt x) else NaN)"
| "np_sqrt PInf = PInf"
| "np_sqrt a = NaN"

definition rint :: "real \<Rightarrow> int" where
  \<comment> \<open>round to the nearest integer, a tie to the even one\<close>
  "rint x =
     (if x - of_int \<lfloor>x\<rfloor> < 1/2 then \<lfloor>x\<rfloor>
      else if 1/2 < x - of_int \<lfloor>x\<rfloor> then \<lfloor>x\<rfloor> + 1
      else if even \<lfloor>x\<rfloor> then \<lfloor>x\<rfloor> else \<lfloor>x\<rfloor> + 1)"

definition round_dec :: "nat \<Rightarrow> real \<Rightarrow> real" where
  \<comment> \<open>rounding of a real to \<open>d\<close> decimals\<close>
  "round_dec d x = of_int (rint (x * 10 ^ d)) / 10 ^ d"

fun np_round :: "fl \<Rightarrow> nat \<Rightarrow> fl" where
  "np_round (Fin x) d = Fin (round_dec d x)"
| "np_round a d = a"

text \<open>
  A pandas data frame is the list of its columns in order, each a name with its cells;
  all columns have the same number of cells. A cell is a float or a string. Column
  names are looked up by first match (data frames here have distinct names).
\<close>

datatype cell = Flt fl | Str string

type_synonym table = "(string \<times> cell list) list"

definition nrows :: "table \<Rightarrow> nat" where
  "nrows t = (case t of [] \<Rightarrow> 0 | c # cs \<Rightarrow> length (snd c))"

definition columns :: "table \<Rightarrow> string list" where
  "columns t = map fst t"

definition getitem :: "table \<Rightarrow> string \<Rightarrow> error + cell list" where
  \<comment> \<open>\<^verbatim>\<open>df[name]\<close>\<close>
  "getitem t name = (case map_of t name of None \<Rightarrow> Inl KeyError | Some cs \<Rightarrow> Inr cs)"

definition getattr :: "table \<Rightarrow> string \<Rightarrow> error + cell list" where
  \<comment> \<open>\<^verbatim>\<open>df.name\<close>\<close>
  "getattr t name = (case map_of t name of None \<Rightarrow> Inl AttributeError | Some cs \<Rightarrow> Inr cs)"

definition rename :: "string \<Rightarrow> string \<Rightarrow> table \<Rightarrow> table" where
  \<comment> \<open>\<^verbatim>\<open>df.rename(columns={old: new})\<close>; a name that is absent is ignored.\<close>
  "rename old new t = map (\<lambda>c. (if fst c = old then new else fst c, snd c)) t"

definition assign :: "string \<Rightarrow> cell list \<Rightarrow> table \<Rightarrow> table" where
  \<comment> \<open>\<^verbatim>\<open>df.assign(name=cells)\<close>: a new frame, the column replaced in place or appended.\<close>
  "assign name cells t =
     (if name \<in> set (columns t) then map (\<lambda>c. if fst c = name then (name, cells) else c) t
      else t @ [(name, cells)])"

definition filter_rows :: "bool list \<Rightarrow> table \<Rightarrow> table" where
  \<comment> \<open>\<^verbatim>\<open>df[mask]\<close> for a Boolean mask with one entry per row\<close>
  "filter_rows keep t = map (\<lambda>c. (fst c, map snd (filter fst (zip keep (snd c))))) t"

definition dropna :: "table \<Rightarrow> table" where
  \<comment> \<open>\<^verbatim>\<open>df.dropna()\<close>: the rows without a NaN cell\<close>
  "dropna t =
     filter_rows (map (\<lambda>i. list_all (\<lambda>c. snd c ! i \<noteq> Flt NaN) t) [0..<nrows t]) t"

definition ebind :: "error + 'a \<Rightarrow> ('a \<Rightarrow> error + 'b) \<Rightarrow> error + 'b" where
  "ebind m f = (case m of Inl e \<Rightarrow> Inl e | Inr x \<Rightarrow> f x)"

fun as_floats :: "cell list \<Rightarrow> error + fl list" where
  \<comment> \<open>arithmetic on a column with a string cell raises TypeError\<close>
  "as_floats [] = Inr []"
| "as_floats (Flt x # cs) = ebind (as_floats cs) (\<lambda>xs. Inr (x # xs))"
| "as_floats (Str s # cs) = Inl TypeError"

definition py_index :: "'a list \<Rightarrow> nat \<Rightarrow> error + 'a" where
  \<comment> \<open>\<^verbatim>\<open>xs[i]\<close> for \<open>i \<ge> 0\<close>\<close>
  "py_index xs i = (if i < length xs then Inr (xs ! i) else Inl IndexError)"

section \<open>CalibrationModels: \<^verbatim>\<open>calc_density\<close>\<close>

datatype calc_out = Values "fl list" | Frame table

definition density_at :: "real \<Rightarrow> real \<Rightarrow> real \<Rightarrow> real \<Rightarrow> fl \<Rightarrow> fl \<Rightarrow> fl" where
  "density_at c0 c1 c2 c3 force_median l =
     np_round
       (fadd (fadd (fadd (Fin c0) (fmul (Fin c1) (np_log force_median)))
                   (fmul (fmul (Fin c2) (np_log force_median)) l))
             (fmul (Fin c3) l)) 1"

definition calc_density :: "table \<Rightarrow> real list \<Rightarrow> bool \<Rightarrow> error + calc_out" where
  "calc_density shot_noise coefs return_df =
     ebind (py_index coefs 0) (\<lambda>c0.
     ebind (py_index coefs 1) (\<lambda>c1.
     ebind (getattr shot_noise ''force_median'') (\<lambda>fm_cells.
     ebind (as_floats fm_cells) (\<lambda>force_median.
     ebind (py_index coefs 2) (\<lambda>c2.
     ebind (getattr shot_noise ''l'') (\<lambda>l_cells.
     ebind (as_floats l_cells) (\<lambda>l.
     ebind (py_index coefs 3) (\<lambda>c3.
       let density = map (\<lambda>(f, l). density_at c0 c1 c2 c3 f l) (zip force_median l)
       in if return_df then Inr (Frame (assign ''density'' (map Flt density) shot_noise))
          else Inr (Values density)))))))))"

text \<open>The spec's formula: \<open>round(c0 + c1\<cdot>ln(F) + c2\<cdot>ln(F)\<cdot>L + c3\<cdot>L, 1)\<close>.\<close>

definition density_spec :: "real \<Rightarrow> real \<Rightarrow> real \<Rightarrow> real \<Rightarrow> real \<Rightarrow> real \<Rightarrow> real" where
  "density_spec c0 c1 c2 c3 F L = round_dec 1 (c0 + c1 * ln F + c2 * ln F * L + c3 * L)"

section \<open>SampleExtractor: \<^verbatim>\<open>extract_samples\<close>\<close>

definition np_mean :: "real list \<Rightarrow> fl" where
  "np_mean xs = (if xs = [] then NaN else Fin (sum_list xs / real (length xs)))"

definition np_median :: "real list \<Rightarrow> fl" where
  "np_median xs =
     (if xs = [] then NaN
      else if odd (length xs) then Fin (sort xs ! (length xs div 2))
      else Fin ((sort xs ! (length xs div 2 - 1) + sort xs ! (length xs div 2)) / 2))"

definition np_std :: "real list \<Rightarrow> fl" where
  "np_std xs =
     (if xs = [] then NaN
      else Fin (sqrt (sum_list (map (\<lambda>x. (x - sum_list xs / real (length xs))\<^sup>2) xs)
                      / real (length xs))))"

definition np_count_nonzero :: "real list \<Rightarrow> nat" where
  "np_count_nonzero xs = length (filter (\<lambda>x. x \<noteq> 0) xs)"

definition window :: "real list \<Rightarrow> real list \<Rightarrow> real \<Rightarrow> real \<Rightarrow> real list" where
  \<comment> \<open>\<^verbatim>\<open>a_value[np.abs(a_height - height) <= window_size]\<close>\<close>
  "window a_height a_value height window_size =
     map snd (filter (\<lambda>p. \<bar>fst p - height\<bar> \<le> window_size) (zip a_height a_value))"

definition extract_samples ::
  "real list \<Rightarrow> real list \<Rightarrow> real list \<Rightarrow> real \<Rightarrow> error + table" where
  \<comment> \<open>A Boolean mask of another length than the indexed array raises IndexError.\<close>
  "extract_samples a_height a_value b_height window_size =
     (if b_height \<noteq> [] \<and> length a_height \<noteq> length a_value then Inl IndexError
      else Inr
        [(''count_samp'', map (\<lambda>height.
            Flt (Fin (real (np_count_nonzero (window a_height a_value height window_size)))))
            b_height),
         (''mean_samp'', map (\<lambda>height.
            Flt (np_mean (window a_height a_value height window_size))) b_height),
         (''median_samp'', map (\<lambda>height.
            Flt (np_median (window a_height a_value height window_size))) b_height),
         (''stdev_samp'', map (\<lambda>height.
            Flt (np_std (window a_height a_value height window_size))) b_height)])"

text \<open>The number of source samples inside the window, as the spec counts them.\<close>

definition samples_in_window :: "real list \<Rightarrow> real \<Rightarrow> real \<Rightarrow> nat" where
  "samples_in_window a_height d w = length (filter (\<lambda>h. \<bar>h - d\<bar> \<le> w) a_height)"

section \<open>SkillScorer: \<^verbatim>\<open>calc_skill\<close>\<close>

fun the_fin :: "fl \<Rightarrow> real" where
  "the_fin (Fin x) = x"
| "the_fin a = 0"

fun is_fin :: "fl \<Rightarrow> bool" where
  "is_fin (Fin x) = True"
| "is_fin a = False"

definition covar :: "real list \<Rightarrow> real list \<Rightarrow> real" where
  \<comment> \<open>the entry of \<^verbatim>\<open>np.cov\<close> (one degree of freedom removed)\<close>
  "covar xs ys =
     sum_list (map (\<lambda>(x, y). (x - sum_list xs / real (length xs)) *
                              (y - sum_list ys / real (length ys))) (zip xs ys))
       / real (length xs - 1)"

definition np_corrcoef10 :: "fl list \<Rightarrow> fl list \<Rightarrow> error + fl" where
  \<comment> \<open>\<^verbatim>\<open>np.corrcoef(x, y)[1][0]\<close>: NaN for fewer than two points, for a special value
      in the data and for a zero variance; the result is clipped to \<open>[-1, 1]\<close>.\<close>
  "np_corrcoef10 x y =
     (if length x \<noteq> length y then Inl ValueError
      else if \<not> (list_all is_fin x \<and> list_all is_fin y) \<or> length x < 2 then Inr NaN
      else let xs = map the_fin x; ys = map the_fin y in
        if covar xs xs = 0 \<or> covar ys ys = 0 then Inr NaN
        else Inr (Fin (max (- 1) (min 1 (covar ys xs / sqrt (covar ys ys) / sqrt (covar xs xs))))))"

definition series_mean :: "fl list \<Rightarrow> fl" where
  \<comment> \<open>\<^verbatim>\<open>np.mean\<close> of a pandas series: NaN cells are skipped\<close>
  "series_mean xs =
     (let ys = filter (\<lambda>x. x \<noteq> NaN) xs
      in if ys = [] then NaN else fdiv_count (foldl fadd (Fin 0) ys) (length ys))"

definition rmse_of :: "fl list \<Rightarrow> fl list \<Rightarrow> fl" where
  "rmse_of x y = np_sqrt (series_mean (map (\<lambda>(a, b). fmul (fsub a b) (fsub a b)) (zip x y)))"

text \<open>
  The rows that are scored: \<^verbatim>\<open>dropna\<close> (when asked for), then the rows whose grain type
  is neither \<^verbatim>\<open>'N'\<close> nor \<^verbatim>\<open>'I'\<close>.
\<close>

definition scored_rows :: "table \<Rightarrow> bool \<Rightarrow> error + table" where
  "scored_rows result drop_na =
     (let result1 = (if drop_na then dropna result else result) in
      ebind (getitem result1 ''grain_type'') (\<lambda>grain_type.
        Inr (filter_rows (map (\<lambda>c. c \<noteq> Str ''N'' \<and> c \<noteq> Str ''I'') grain_type) result1)))"

text \<open>
  \<^verbatim>\<open>calc_skill\<close> returns the pair \<open>(r, rmse)\<close> or raises; the second component of the
  model is the table the caller passed, as the call leaves it: \<^verbatim>\<open>dropna(inplace=True)\<close>
  changes that object, the later filter only rebinds the local name.
\<close>

definition calc_skill :: "table \<Rightarrow> real \<Rightarrow> bool \<Rightarrow> (error + (fl \<times> fl)) \<times> table" where
  "calc_skill result window_size drop_na =
     (ebind (scored_rows result drop_na) (\<lambda>result2.
      ebind (getitem result2 ''mean_samp'') (\<lambda>mean_cells.
      ebind (getitem result2 ''ref_val'') (\<lambda>ref_cells.
      ebind (as_floats mean_cells) (\<lambda>mean_samp.
      ebind (as_floats ref_cells) (\<lambda>ref_val.
      ebind (np_corrcoef10 mean_samp ref_val) (\<lambda>r.
        Inr (r, rmse_of mean_samp ref_val))))))),
      if drop_na then dropna result else result)"

section \<open>ProfileWarper: \<^verbatim>\<open>scale_profile\<close>\<close>

fun first_min :: "real list \<Rightarrow> nat" where
  \<comment> \<open>the index of the first least element of a list that is not empty\<close>
  "first_min [] = 0"
| "first_min [x] = 0"
| "first_min (x # y # ys) =
     (if x \<le> (y # ys) ! first_min (y # ys) then 0 else Suc (first_min (y # ys)))"

definition np_argmin :: "real list \<Rightarrow> error + nat" where
  \<comment> \<open>\<^verbatim>\<open>xs.argmin()\<close>: ValueError on an empty array\<close>
  "np_argmin xs = (if xs = [] then Inl ValueError else Inr (first_min xs))"

definition nearest_idx :: "real list \<Rightarrow> real \<Rightarrow> error + nat" where
  \<comment> \<open>\<^verbatim>\<open>(np.abs(xs - t)).argmin()\<close>\<close>
  "nearest_idx xs t = np_argmin (map (\<lambda>x. \<bar>x - t\<bar>) xs)"

definition slice :: "'a list \<Rightarrow> nat \<Rightarrow> nat \<Rightarrow> 'a list" where
  \<comment> \<open>\<^verbatim>\<open>xs[a:b]\<close> for indices that are not negative\<close>
  "slice xs a b = take (b - a) (drop a xs)"

definition py_mod :: "real \<Rightarrow> real \<Rightarrow> real" where
  \<comment> \<open>\<^verbatim>\<open>a % b\<close> on floats, for \<open>b \<noteq> 0\<close>\<close>
  "py_mod a b = a - b * of_int \<lfloor>a / b\<rfloor>"

definition np_arange0 :: "real \<Rightarrow> real \<Rightarrow> error + real list" where
  \<comment> \<open>\<^verbatim>\<open>np.arange(0, stop, step)\<close>: a zero step raises (ZeroDivisionError for a zero
      \<open>stop\<close>, else the length exceeds the allowed size); \<open>\<lceil>stop / step\<rceil>\<close> elements otherwise\<close>
  "np_arange0 stop step =
     (if step = 0 then (if stop = 0 then Inl ZeroDivisionError else Inl ValueError)
      else Inr (map (\<lambda>i. real i * step) [0..<nat \<lceil>stop / step\<rceil>]))"

text \<open>
  \<^verbatim>\<open>scipy.ndimage.interpolation.zoom\<close> is a function of the SciPy library; the model
  takes it as the parameter \<open>zoom\<close>. SciPy fixes the length of its result:
  \<^verbatim>\<open>int(round(len(input) * zoom))\<close>.
\<close>

type_synonym zoom_fun = "real list \<Rightarrow> real \<Rightarrow> real list"

definition zoom_length_ok :: "zoom_fun \<Rightarrow> bool" where
  "zoom_length_ok zoom \<longleftrightarrow>
     (\<forall>xs z. length (zoom xs z) = nat (rint (real (length xs) * z)))"

text \<open>
  The loop over the layers; its state is \<open>(l_last, result_dist, result_value)\<close>. The
  arguments before the list of layer indices do not change during the loop.
\<close>

fun scale_layers ::
  "zoom_fun \<Rightarrow> real list \<Rightarrow> real list \<Rightarrow> real \<Rightarrow> real \<Rightarrow> real list \<Rightarrow> real list \<Rightarrow>
   nat list \<Rightarrow> real \<times> real list \<times> real list \<Rightarrow> error + (real list \<times> real list)" where
  "scale_layers zoom depth_array value_array l_resample h_resample layer_thickness
     depth_stretch [] (l_last, result_dist, result_value) = Inr (result_dist, result_value)"
| "scale_layers zoom depth_array value_array l_resample h_resample layer_thickness
     depth_stretch (l_idx # rest) (l_last, result_dist, result_value) =
     ebind (nearest_idx depth_array (l_resample * real l_idx)) (\<lambda>ol_start_idx.
     ebind (nearest_idx depth_array (l_resample * real l_idx + l_resample)) (\<lambda>ol_end_idx.
     let orig_dist = slice depth_array ol_start_idx ol_end_idx;
         orig_value = slice value_array ol_start_idx ol_end_idx;
         l_end = sum_list (take (l_idx + 1) layer_thickness)
                 - py_mod (sum_list (take (l_idx + 1) layer_thickness)) h_resample
     in
     ebind (nearest_idx depth_stretch l_end) (\<lambda>l_end_idx.
     ebind (nearest_idx depth_stretch (l_last + h_resample)) (\<lambda>l_start_idx.
       if 2 < length orig_value then
         let scaled_dist = slice depth_stretch l_start_idx (l_end_idx + 1) in
         if length orig_dist = 0 then Inl ZeroDivisionError
         else scale_layers zoom depth_array value_array l_resample h_resample layer_thickness
                depth_stretch rest
                (l_end, result_dist @ scaled_dist,
                 result_value @
                   zoom orig_value (real (length scaled_dist) / real (length orig_dist)))
       else scale_layers zoom depth_array value_array l_resample h_resample layer_thickness
              depth_stretch rest (l_end, result_dist, result_value)))))"

definition scale_profile ::
  "zoom_fun \<Rightarrow> real list \<Rightarrow> real list \<Rightarrow> real list \<Rightarrow> real \<Rightarrow> real option \<Rightarrow>
   error + (real list \<times> real list)" where
  "scale_profile zoom scaling_guess depth_array value_array l_resample h_resample =
     (if length depth_array < 2 then Inl IndexError
      else
        let delta_h = depth_array ! 1 - depth_array ! 0;
            h = (case h_resample of None \<Rightarrow> delta_h | Some h' \<Rightarrow> h');
            layer_thickness = map (\<lambda>s. l_resample + s * l_resample) scaling_guess;
            new_total_thickness = sum_list layer_thickness
        in ebind (np_arange0 new_total_thickness h) (\<lambda>depth_stretch.
             scale_layers zoom depth_array value_array l_resample h layer_thickness
               depth_stretch [0..<length layer_thickness] (- h, [], [])))"

text \<open>Abbreviations for the statements about the loop.\<close>

definition near :: "real list \<Rightarrow> real \<Rightarrow> nat" where
  "near xs t = first_min (map (\<lambda>x. \<bar>x - t\<bar>) xs)"

definition floor_to :: "real \<Rightarrow> real \<Rightarrow> real" where
  "floor_to h x = x - py_mod x h"

definition step_of :: "real list \<Rightarrow> real option \<Rightarrow> real" where
  "step_of depth_array h_resample =
     (case h_resample of None \<Rightarrow> depth_array ! 1 - depth_array ! 0 | Some h' \<Rightarrow> h')"

definition thickness_of :: "real \<Rightarrow> real list \<Rightarrow> real list" where
  "thickness_of l_resample scaling_guess = map (\<lambda>s. l_resample + s * l_resample) scaling_guess"

section \<open>AlignmentSearch: \<^verbatim>\<open>eval_scaling\<close>\<close>

definition get_loc :: "table \<Rightarrow> string \<Rightarrow> nat" where
  \<comment> \<open>\<^verbatim>\<open>df.columns.get_loc(c)\<close> for a name that is present\<close>
  "get_loc t c = length (takeWhile (\<lambda>n. n \<noteq> c) (columns t))"

text \<open>
  Lines 215--217: the reference type is the first of \<^verbatim>\<open>'density'\<close>, \<^verbatim>\<open>'ssa'\<close> (in this
  order) that is a column of the reference table; indexing the empty selection raises
  IndexError.
\<close>

definition ref_type_of :: "table \<Rightarrow> error + string" where
  "ref_type_of ref_dat =
     (let col_types = [''density'', ''ssa''];
          ref_iloc = map (get_loc ref_dat) (filter (\<lambda>c. c \<in> set (columns ref_dat)) col_types)
      in py_index (map (\<lambda>i. columns ref_dat ! i) ref_iloc) 0)"

fun fl_le :: "fl \<Rightarrow> fl \<Rightarrow> bool" where
  \<comment> \<open>the order of the floats that are not NaN\<close>
  "fl_le (Fin x) (Fin y) = (x \<le> y)"
| "fl_le NInf b = True"
| "fl_le a PInf = True"
| "fl_le a b = False"

definition series_max :: "fl list \<Rightarrow> fl" where
  \<comment> \<open>\<^verbatim>\<open>series.max()\<close>: NaN cells are skipped; NaN when nothing is left\<close>
  "series_max xs =
     (let ys = filter (\<lambda>x. x \<noteq> NaN) xs
      in if ys = [] then NaN else foldl (\<lambda>a b. if fl_le a b then b else a) (hd ys) (tl ys))"

definition np_amin2 :: "fl \<Rightarrow> fl \<Rightarrow> fl" where
  \<comment> \<open>\<^verbatim>\<open>np.amin([a, b])\<close>: NaN wins\<close>
  "np_amin2 a b = (if a = NaN \<or> b = NaN then NaN else if fl_le a b then a else b)"

text \<open>
  \<^verbatim>\<open>np.ceil(min_len/layer_h).astype(int)\<close>. The cast of NaN or of an infinity to an
  integer is not defined by NumPy (the value depends on the platform); the model stops
  there with \<open>OutsideModel\<close>. The same outcome stands for a depth column with a string
  cell, and for depth and value columns with a cell other than a finite number where the
  code passes them on as arrays: about such tables the model says nothing.
\<close>

definition num_sections_of :: "fl \<Rightarrow> real \<Rightarrow> error + int" where
  "num_sections_of min_len layer_h =
     (case min_len of
        Fin m \<Rightarrow> if layer_h = 0 then Inl OutsideModel else Inr \<lceil>m / layer_h\<rceil>
      | _ \<Rightarrow> Inl OutsideModel)"

fun to_reals :: "cell list \<Rightarrow> error + real list" where
  "to_reals [] = Inr []"
| "to_reals (Flt (Fin x) # cs) = ebind (to_reals cs) (\<lambda>xs. Inr (x # xs))"
| "to_reals (c # cs) = Inl OutsideModel"

fun numeric_cells :: "cell list \<Rightarrow> error + fl list" where
  "numeric_cells [] = Inr []"
| "numeric_cells (Flt x # cs) = ebind (numeric_cells cs) (\<lambda>xs. Inr (x # xs))"
| "numeric_cells (Str s # cs) = Inl OutsideModel"

text \<open>
  Line 225: the candidates are drawn one after the other from the global generator; each
  call starts from the state the call before it left.
\<close>

fun random_tests ::
  "nat \<Rightarrow> rng \<Rightarrow> int \<Rightarrow> real \<Rightarrow> real \<Rightarrow> ((error + real list list) \<times> rng) option" where
  "random_tests 0 g num_sections max_stretch max_layer_stretch = Some (Inr [], g)"
| "random_tests (Suc k) g num_sections max_stretch max_layer_stretch =
     (case random_scaling g num_sections max_stretch max_layer_stretch of
        None \<Rightarrow> None
      | Some (Inl e) \<Rightarrow> Some (Inl e, g)
      | Some (Inr (test, g')) \<Rightarrow>
          (case random_tests k g' num_sections max_stretch max_layer_stretch of
             None \<Rightarrow> None
           | Some (Inl e, g'') \<Rightarrow> Some (Inl e, g'')
           | Some (Inr tests, g'') \<Rightarrow> Some (Inr (test # tests), g'')))"

fun emap :: "('a \<Rightarrow> error + 'b) \<Rightarrow> 'a list \<Rightarrow> error + 'b list" where
  \<comment> \<open>a list comprehension whose body may raise\<close>
  "emap f [] = Inr []"
| "emap f (x # xs) = ebind (f x) (\<lambda>y. ebind (emap f xs) (\<lambda>ys. Inr (y # ys)))"

fun skill_all :: "table list \<Rightarrow> real \<Rightarrow> error + ((fl \<times> fl) list \<times> table list)" where
  \<comment> \<open>line 231; each profile is left as \<^verbatim>\<open>calc_skill\<close> leaves it\<close>
  "skill_all [] samp_h = Inr ([], [])"
| "skill_all (profile # profiles) samp_h =
     (case calc_skill profile samp_h True of
        (Inl e, profile') \<Rightarrow> Inl e
      | (Inr s, profile') \<Rightarrow>
          ebind (skill_all profiles samp_h) (\<lambda>(ss, profiles'). Inr (s # ss, profile' # profiles')))"

text \<open>
  \<^verbatim>\<open>sort_values(['r', 'rmse'], ascending=[False, True])\<close>: larger \<open>r\<close> first, then smaller
  RMSE, NaN last in both columns, and rows that compare equal in their original order.
\<close>

definition fl_lt :: "fl \<Rightarrow> fl \<Rightarrow> bool" where
  "fl_lt a b \<longleftrightarrow> fl_le a b \<and> a \<noteq> b"

definition sorts_before :: "fl \<times> fl \<Rightarrow> fl \<times> fl \<Rightarrow> bool" where
  "sorts_before s t \<longleftrightarrow>
     (let r_before = (\<lambda>a b. a \<noteq> NaN \<and> (b = NaN \<or> fl_lt b a));
          rmse_before = (\<lambda>a b. a \<noteq> NaN \<and> (b = NaN \<or> fl_lt a b))
      in r_before (fst s) (fst t) \<or>
         (\<not> r_before (fst t) (fst s) \<and> rmse_before (snd s) (snd t)))"

fun best_index :: "(fl \<times> fl) list \<Rightarrow> nat" where
  "best_index [] = 0"
| "best_index [s] = 0"
| "best_index (s # t # ts) =
     (if sorts_before ((t # ts) ! best_index (t # ts)) s then Suc (best_index (t # ts)) else 0)"

definition min_scaling_idx :: "(fl \<times> fl) list \<Rightarrow> nat list" where
  \<comment> \<open>\<^verbatim>\<open>retrieved_skill.sort_values(...).head(1).index.values\<close>\<close>
  "min_scaling_idx skills = (if skills = [] then [] else [best_index skills])"

record scaling_meta =
  meta_index :: nat
  meta_r :: fl
  meta_rmse :: fl
  meta_ref_type :: string
  meta_scale_coeff :: "real list"
  meta_scale_per :: real
  meta_n_obs :: nat
  meta_n_comp :: nat
  meta_n_tests :: int

text \<open>Lines 226--243: warping, extraction, scoring and the summary; no randomness.\<close>

definition score_trials ::
  "zoom_fun \<Rightarrow> table \<Rightarrow> table \<Rightarrow> string \<Rightarrow> real list list \<Rightarrow> int \<Rightarrow> real \<Rightarrow> real \<Rightarrow>
   error + (scaling_meta \<times> table)" where
  "score_trials zoom smp_dat ref_dat ref_type tests num_tests layer_h samp_h =
     ebind (emap (\<lambda>test.
        ebind (getattr smp_dat ''rel_height'') (\<lambda>rel_cells.
        ebind (getattr smp_dat ''smp_val'') (\<lambda>val_cells.
        ebind (to_reals rel_cells) (\<lambda>rel_height.
        ebind (to_reals val_cells) (\<lambda>smp_val.
          scale_profile zoom test rel_height smp_val layer_h None))))) tests)
       (\<lambda>scaled_profiles.
     ebind (emap (\<lambda>(dist, ref).
        ebind (getattr ref_dat ''rel_height'') (\<lambda>rel_cells.
        ebind (to_reals rel_cells) (\<lambda>rel_height.
          extract_samples dist ref rel_height samp_h))) scaled_profiles)
       (\<lambda>extracted.
     ebind (skill_all (map (\<lambda>profile. profile @ ref_dat) extracted) samp_h)
       (\<lambda>(retrieved_skill, compare_profiles).
     ebind (py_index (min_scaling_idx retrieved_skill) 0) (\<lambda>idx.
       Inr (\<lparr>meta_index = idx,
              meta_r = fst (retrieved_skill ! idx),
              meta_rmse = snd (retrieved_skill ! idx),
              meta_ref_type = ref_type,
              meta_scale_coeff = tests ! idx,
              meta_scale_per = sum_list (tests ! idx),
              meta_n_obs = nrows ref_dat,
              meta_n_comp = nrows (compare_profiles ! idx),
              meta_n_tests = num_tests\<rparr>,
            compare_profiles ! idx)))))"

text \<open>Lines 220--224: the checks and the layer count, before any candidate is drawn.\<close>

definition layer_count :: "table \<Rightarrow> table \<Rightarrow> int \<Rightarrow> real \<Rightarrow> error + int" where
  "layer_count smp_dat ref_dat num_tests layer_h =
     ebind (getitem ref_dat ''site'') (\<lambda>site.
     ebind (py_index site 0) (\<lambda>site0.
     ebind (getitem smp_dat ''rel_height'') (\<lambda>smp_cells.
     ebind (getattr ref_dat ''height'') (\<lambda>ref_cells.
     ebind (numeric_cells smp_cells) (\<lambda>smp_height.
     ebind (numeric_cells ref_cells) (\<lambda>ref_height.
     ebind (num_sections_of (np_amin2 (series_max smp_height) (series_max ref_height)) layer_h)
       (\<lambda>num_sections.
       if num_tests < 0 then Inl ValueError else Inr num_sections)))))))"

text \<open>
  \<^verbatim>\<open>eval_scaling\<close>. The result is \<open>None\<close> when a call of \<^verbatim>\<open>random_scaling\<close> never
  returns; otherwise it is what the call returns or raises, together with the two tables
  and the global generator as the call leaves them (the two \<^verbatim>\<open>rename(..., inplace=True)\<close>
  change the caller's tables).
\<close>

definition eval_scaling ::
  "zoom_fun \<Rightarrow> rng \<Rightarrow> table \<Rightarrow> table \<Rightarrow> int \<Rightarrow> real \<Rightarrow> real \<Rightarrow> real \<Rightarrow> real \<Rightarrow>
   ((error + (scaling_meta \<times> table)) \<times> table \<times> table \<times> rng) option" where
  "eval_scaling zoom g smp_dat ref_dat num_tests layer_h max_stretch max_layer_stretch samp_h =
     (case ref_type_of ref_dat of
        Inl e \<Rightarrow> Some (Inl e, smp_dat, ref_dat, g)
      | Inr ref_type \<Rightarrow>
          let ref_dat1 = rename ref_type ''ref_val'' ref_dat;
              smp_dat1 = rename ref_type ''smp_val'' smp_dat
          in case layer_count smp_dat1 ref_dat1 num_tests layer_h of
               Inl e \<Rightarrow> Some (Inl e, smp_dat1, ref_dat1, g)
             | Inr num_sections \<Rightarrow>
                 (case random_tests (nat num_tests) g num_sections max_stretch
                         max_layer_stretch of
                    None \<Rightarrow> None
                  | Some (Inl e, g') \<Rightarrow> Some (Inl e, smp_dat1, ref_dat1, g')
                  | Some (Inr tests, g') \<Rightarrow>
                      Some (score_trials zoom smp_dat1 ref_dat1 ref_type tests num_tests
                              layer_h samp_h,
                            smp_dat1, ref_dat1, g')))"

text \<open>
  Lines 218--243 for a reference type that has been determined: the two renames, the
  checks, the trials and the summary.
\<close>

definition eval_scaling_with ::
  "string \<Rightarrow> zoom_fun \<Rightarrow> rng \<Rightarrow> table \<Rightarrow> table \<Rightarrow> int \<Rightarrow> real \<Rightarrow> real \<Rightarrow> real \<Rightarrow> real \<Rightarrow>
   ((error + (scaling_meta \<times> table)) \<times> table \<times> table \<times> rng) option" where
  "eval_scaling_with ref_type zoom g smp_dat ref_dat num_tests layer_h max_stretch
     max_layer_stretch samp_h =
     (case layer_count (rename ref_type ''smp_val'' smp_dat) (rename ref_type ''ref_val'' ref_dat)
             num_tests layer_h of
        Inl e \<Rightarrow>
          Some (Inl e, rename ref_type ''smp_val'' smp_dat, rename ref_type ''ref_val'' ref_dat, g)
      | Inr num_sections \<Rightarrow>
          (case random_tests (nat num_tests) g num_sections max_stretch max_layer_stretch of
             None \<Rightarrow> None
           | Some (Inl e, g') \<Rightarrow>
               Some (Inl e, rename ref_type ''smp_val'' smp_dat,
                     rename ref_type ''ref_val'' ref_dat, g')
           | Some (Inr tests, g') \<Rightarrow>
               Some (score_trials zoom (rename ref_type ''smp_val'' smp_dat)
                       (rename ref_type ''ref_val'' ref_dat) ref_type tests num_tests
                       layer_h samp_h,
                     rename ref_type ''smp_val'' smp_dat,
                     rename ref_type ''ref_val'' ref_dat, g')))"

section \<open>Concrete inputs used by the examples\<close>

definition one_row :: table where
  "one_row = [(''mean_samp'', [Flt (Fin 1)]), (''ref_val'', [Flt (Fin 2)]),
              (''grain_type'', [Str ''R''])]"

text \<open>
  A stand-in for SciPy's \<^verbatim>\<open>zoom\<close> in the examples: it has the length SciPy gives the
  result and repeats source samples (no spline).
\<close>

definition zoom_hold :: zoom_fun where
  "zoom_hold xs z =
     map (\<lambda>j. xs ! ((j * length xs) div nat (rint (real (length xs) * z))))
       [0..<nat (rint (real (length xs) * z))]"

text \<open>
  A run of \<^verbatim>\<open>eval_scaling\<close>: a profile of five samples, one reference measurement in a table
  that has both a \<^verbatim>\<open>density\<close> and an \<^verbatim>\<open>ssa\<close> column, one trial, layers of height 4.
  The generator's samples are 1/2 for its first two calls and 11/20 afterwards.
\<close>

definition g_ex :: rng where
  "g_ex = \<lparr>perm_at = (\<lambda>k n. [0..<n]), unif_at = (\<lambda>k. if k < 2 then 1/2 else 11/20),
           ncalls = 0\<rparr>"

definition smp_ex :: table where
  "smp_ex = [(''rel_height'', [Flt (Fin 0), Flt (Fin 1), Flt (Fin 2), Flt (Fin 3), Flt (Fin 4)]),
             (''density'', [Flt (Fin 100), Flt (Fin 200), Flt (Fin 300), Flt (Fin 400),
                            Flt (Fin 500)])]"

definition ref_ex :: table where
  "ref_ex = [(''site'', [Str ''S1'']), (''height'', [Flt (Fin 4)]), (''rel_height'', [Flt (Fin 1)]),
             (''density'', [Flt (Fin 201)]), (''ssa'', [Flt (Fin 20)]), (''grain_type'', [Str ''R''])]"

definition smp_ex' :: table where
  "smp_ex' = [(''rel_height'', [Flt (Fin 0), Flt (Fin 1), Flt (Fin 2), Flt (Fin 3), Flt (Fin 4)]),
              (''smp_val'', [Flt (Fin 100), Flt (Fin 200), Flt (Fin 300), Flt (Fin 400),
                             Flt (Fin 500)])]"

definition ref_ex' :: table where
  "ref_ex' = [(''site'', [Str ''S1'']), (''height'', [Flt (Fin 4)]), (''rel_height'', [Flt (Fin 1)]),
              (''ref_val'', [Flt (Fin 201)]), (''ssa'', [Flt (Fin 20)]), (''grain_type'', [Str ''R''])]"

definition compare_ex :: "real \<Rightarrow> table" where
  "compare_ex m = [(''count_samp'', [Flt (Fin 1)]), (''mean_samp'', [Flt (Fin m)]),
                   (''median_samp'', [Flt (Fin m)]), (''stdev_samp'', [Flt (Fin 0)])] @ ref_ex'"

definition meta_ex :: "real \<Rightarrow> real \<Rightarrow> scaling_meta" where
  "meta_ex s e = \<lparr>meta_index = 0, meta_r = NaN, meta_rmse = Fin e, meta_ref_type = ''density'',
                  meta_scale_coeff = [s], meta_scale_per = s, meta_n_obs = 1, meta_n_comp = 1,
                  meta_n_tests = 1\<rparr>"

definition ref_none :: table where
  "ref_none = [(''site'', [Str ''S1'']), (''height'', [Flt (Fin 4)]), (''rel_height'', [Flt (Fin 1)]),
               (''grain_type'', [Str ''R''])]"

definition two_rows :: table where
  "two_rows = [(''mean_samp'', [Flt NaN, Flt (Fin 1)]), (''ref_val'', [Flt (Fin 2), Flt (Fin 2)]),
               (''grain_type'', [Str ''R'', Str ''R''])]"

definition ref_ssa :: table where
  "ref_ssa = [(''site'', [Str ''S1'']), (''height'', [Flt (Fin 4)]), (''rel_height'', [Flt (Fin 1)]),
              (''ssa'', [Flt (Fin 20)]), (''grain_type'', [Str ''R''])]"

definition ref_ssa_nan :: table where
  "ref_ssa_nan = [(''site'', [Str ''S1'']), (''height'', [Flt (Fin 4)]), (''rel_height'', [Flt (Fin 1)]),
                  (''density'', [Flt (Fin 201)]), (''ssa'', [Flt NaN]), (''grain_type'', [Str ''R''])]"

section \<open>Properties of \<^verbatim>\<open>random_scaling\<close>\<close>


lemma draw_stretch_eq:
  "draw_stretch k g m acc =
     (acc @ map (\<lambda>i. 2 * m * unif_at g (ncalls g + i) - m) [0..<k],
      g\<lparr>ncalls := ncalls g + k\<rparr>)"
proof (induction k arbitrary: g acc)
  case 0
  then show ?case by simp
next
  case (Suc k)
  have "map (\<lambda>i. 2 * m * unif_at g (ncalls g + i) - m) [0..<Suc k] =
        (2 * m * unif_at g (ncalls g) - m) #
          map (\<lambda>i. 2 * m * unif_at g (Suc (ncalls g) + i) - m) [0..<k]"
    unfolding upt_conv_Cons[OF zero_less_Suc] map_Suc_upt[symmetric]
    by (simp add: comp_def del: upt_Suc)
  then show ?case
    by (simp add: np_random_uniform_def Suc.IH del: upt_Suc)
qed

lemma uniform_bound:
  assumes "0 \<le> u" "u < 1" "0 \<le> (m::real)"
  shows "\<bar>2 * m * u - m\<bar> \<le> m"
proof -
  have "0 \<le> 2 * m * u" using assms by simp
  moreover have "2 * m * u \<le> 2 * m * 1"
    using assms by (intro mult_left_mono) auto
  ultimately show ?thesis by (simp add: abs_le_iff)
qed

lemma attempt_length: "length (fst (attempt g n m)) = length (perm_at g (ncalls g) n)"
  by (simp add: attempt_def draw_stretch_eq)

lemma attempt_bound:
  assumes "rng_ok g" "0 \<le> m" "x \<in> set (fst (attempt g n m))"
  shows "\<bar>x\<bar> \<le> m"
  using assms by (auto simp: attempt_def draw_stretch_eq rng_ok_def intro!: uniform_bound)

lemma attempt_rng_ok: "rng_ok g \<Longrightarrow> rng_ok (snd (attempt g n m))"
  by (simp add: attempt_def draw_stretch_eq rng_ok_def)

lemma round_result_lengths:
  "round_result g n m = (order, stretch, g') \<Longrightarrow> length stretch = length order"
  using attempt_length[of g n m] by (auto simp: round_result_def)

lemma loop_unfold:
  "0 \<le> n \<Longrightarrow> random_scaling_loop g n mc m =
     (if within_budget g (nat n) mc m
      then Some (Inr (round_result g (nat n) m))
      else random_scaling_loop (snd (attempt g (nat n) m)) n mc m)"
  by (subst random_scaling_loop.simps)
     (simp add: np_random_choice_def within_budget_def attempt_def round_result_def
           split: prod.splits)

lemma loop_neg: "n < 0 \<Longrightarrow> random_scaling_loop g n mc m = Some (Inl ValueError)"
  by (subst random_scaling_loop.simps) (simp add: np_random_choice_def)

lemma loop_result:
  assumes "random_scaling_loop g n mc m = Some y"
  shows "(n < 0 \<and> y = Inl ValueError) \<or>
         (0 \<le> n \<and> (\<exists>k. within_budget (after_rounds k g (nat n) m) (nat n) mc m \<and>
            y = Inr (round_result (after_rounds k g (nat n) m) (nat n) m)))"
  using assms
proof (induction rule: random_scaling_loop.raw_induct[rotated 1, consumes 1])
  case (1 loop g n mc m y)
  show ?case
  proof (cases "n < 0")
    case True
    with 1(2) show ?thesis by (simp add: np_random_choice_def)
  next
    case False
    hence n: "0 \<le> n" by simp
    show ?thesis
    proof (cases "within_budget g (nat n) mc m")
      case True
      with 1(2) n have "y = Inr (round_result g (nat n) m)"
        by (auto simp: np_random_choice_def within_budget_def attempt_def round_result_def
                 split: prod.splits)
      with True n show ?thesis
        by (intro disjI2 conjI exI[of _ 0]) simp_all
    next
      case nb: False
      with 1(2) n have "loop (snd (attempt g (nat n) m)) n mc m = Some y"
        by (auto simp: np_random_choice_def within_budget_def attempt_def split: prod.splits)
      from 1(1)[OF this] n obtain k where
        k: "within_budget (after_rounds k (snd (attempt g (nat n) m)) (nat n) m) (nat n) mc m"
           "y = Inr (round_result (after_rounds k (snd (attempt g (nat n) m)) (nat n) m) (nat n) m)"
        by auto
      show ?thesis
        using n k by (intro disjI2 conjI exI[of _ "Suc k"]) simp_all
    qed
  qed
qed

lemma loop_returns:
  assumes "0 \<le> n" "within_budget (after_rounds k g (nat n) m) (nat n) mc m"
  shows "\<exists>y. random_scaling_loop g n mc m = Some y"
  using assms
proof (induction k arbitrary: g)
  case 0
  then show ?case by (simp add: loop_unfold)
next
  case (Suc k)
  then show ?case by (subst loop_unfold) auto
qed


lemma after_rounds_rng_ok: "rng_ok g \<Longrightarrow> rng_ok (after_rounds k g n m)"
  by (induction k arbitrary: g) (simp_all add: attempt_rng_ok)

lemma mset_np_argsort: "mset (np_argsort xs) = mset [0..<length xs]"
proof -
  have "mset (np_argsort xs) = image_mset snd (mset (sort_key fst (zip xs [0..<length xs])))"
    by (simp add: np_argsort_def)
  also have "\<dots> = mset (map snd (zip xs [0..<length xs]))"
    by (simp only: mset_map mset_sort)
  also have "map snd (zip xs [0..<length xs]) = [0..<length xs]"
    by (simp add: map_snd_zip)
  finally show ?thesis .
qed

lemma length_np_argsort: "length (np_argsort xs) = length xs"
  using mset_np_argsort[of xs] by (metis length_upt minus_nat.diff_0 size_mset)

lemma set_np_argsort: "set (np_argsort xs) = {0..<length xs}"
  using mset_np_argsort[of xs] by (metis set_mset_mset set_upt)

lemma sum_list_reorder:
  fixes xs :: "real list"
  assumes "mset p = mset [0..<length xs]"
  shows "sum_list (map (\<lambda>i. xs ! i) p) = sum_list xs"
proof -
  have "sum_list (map (\<lambda>i. xs ! i) p) = sum_mset (image_mset (\<lambda>i. xs ! i) (mset p))"
    by (metis mset_map sum_mset_sum_list)
  also have "\<dots> = sum_mset (mset (map (\<lambda>i. xs ! i) [0..<length xs]))"
    by (simp add: assms)
  also have "\<dots> = sum_list xs"
    by (simp only: map_nth sum_mset_sum_list)
  finally show ?thesis .
qed

lemma set_reorder:
  assumes "mset p = mset [0..<length xs]"
  shows "set (map (\<lambda>i. xs ! i) p) = set xs"
proof -
  have "set p = {0..<length xs}" using assms by (metis set_mset_mset set_upt)
  then show ?thesis by (auto simp: in_set_conv_nth)
qed

lemma reorder_ok:
  assumes "length stretch = length order"
  shows "fancy_index stretch (np_argsort order) = Inr (map (\<lambda>i. stretch ! i) (np_argsort order))"
  using assms by (simp add: fancy_index_def set_np_argsort)

lemma random_scaling_cases:
  "random_scaling g n mc m =
     (case random_scaling_loop g n mc m of
        None \<Rightarrow> None
      | Some (Inl e) \<Rightarrow> Some (Inl e)
      | Some (Inr (layer_order, layer_stretch, g')) \<Rightarrow>
          (case fancy_index layer_stretch (np_argsort layer_order) of
             Inl e \<Rightarrow> Some (Inl e)
           | Inr v \<Rightarrow> Some (Inr (v, g'))))"
  by (simp add: random_scaling_def)

lemma random_scaling_Inr:
  assumes "random_scaling g n mc m = Some (Inr (v, g'))"
  shows "0 \<le> n \<and> (\<exists>k. within_budget (after_rounds k g (nat n) m) (nat n) mc m \<and>
           g' = snd (attempt (after_rounds k g (nat n) m) (nat n) m) \<and>
           v = map (\<lambda>i. fst (attempt (after_rounds k g (nat n) m) (nat n) m) ! i)
                 (np_argsort (perm_at (after_rounds k g (nat n) m)
                    (ncalls (after_rounds k g (nat n) m)) (nat n))))"
proof -
  from assms obtain order stretch where
    l: "random_scaling_loop g n mc m = Some (Inr (order, stretch, g'))"
    and f: "fancy_index stretch (np_argsort order) = Inr v"
    by (auto simp: random_scaling_def split: option.splits sum.splits)
  from loop_result[OF l] obtain k where n: "0 \<le> n" and
    wb: "within_budget (after_rounds k g (nat n) m) (nat n) mc m" and
    r: "(order, stretch, g') = round_result (after_rounds k g (nat n) m) (nat n) m"
    by auto
  from r have o: "order = perm_at (after_rounds k g (nat n) m) (ncalls (after_rounds k g (nat n) m)) (nat n)"
    and st: "stretch = fst (attempt (after_rounds k g (nat n) m) (nat n) m)"
    and g': "g' = snd (attempt (after_rounds k g (nat n) m) (nat n) m)"
    using r by (auto simp: round_result_def dest: arg_cong[where f=fst] arg_cong[where f=snd])
  have "length stretch = length order" by (simp add: o st attempt_length)
  from reorder_ok[OF this] f have "v = map (\<lambda>i. stretch ! i) (np_argsort order)" by simp
  with n wb o st g' show ?thesis by (intro conjI exI[of _ k]) simp_all
qed

text \<open>
  Claim C2. Every vector \<open>v\<close> that \<^verbatim>\<open>random_scaling\<close> returns for \<open>layer_num = n\<close> has
  length \<open>n\<close>, every element of magnitude at most \<open>max_change_layer\<close>, and a sum of
  magnitude at most \<open>max_change\<close>. The generator delivers orders that are permutations and
  samples of \<open>[0, 1)\<close>; the per-layer bound is a fraction, hence not negative.
\<close>

theorem random_scaling_invariants:
  assumes "rng_ok g" and "0 \<le> max_change_layer"
    and "random_scaling g layer_num max_change max_change_layer = Some (Inr (v, g'))"
  shows "int (length v) = layer_num \<and> (\<forall>x \<in> set v. \<bar>x\<bar> \<le> max_change_layer) \<and>
         \<bar>sum_list v\<bar> \<le> max_change"
proof -
  define n where "n = nat layer_num"
  from random_scaling_Inr[OF assms(3)] obtain k where n0: "0 \<le> layer_num"
    and wb: "within_budget (after_rounds k g n max_change_layer) n max_change max_change_layer"
    and v: "v = map (\<lambda>i. fst (attempt (after_rounds k g n max_change_layer) n max_change_layer) ! i)
                 (np_argsort (perm_at (after_rounds k g n max_change_layer)
                    (ncalls (after_rounds k g n max_change_layer)) n))"
    by (auto simp: n_def)
  define gk where "gk = after_rounds k g n max_change_layer"
  define stretch where "stretch = fst (attempt gk n max_change_layer)"
  define order where "order = perm_at gk (ncalls gk) n"
  have ok: "rng_ok gk" unfolding gk_def by (rule after_rounds_rng_ok[OF assms(1)])
  have lo: "length order = n"
    using ok by (metis order_def rng_ok_def size_mset length_upt minus_nat.diff_0)
  have ls: "length stretch = length order"
    by (simp add: stretch_def order_def attempt_length)
  have v': "v = map (\<lambda>i. stretch ! i) (np_argsort order)"
    using v by (simp add: stretch_def order_def gk_def)
  have p: "mset (np_argsort order) = mset [0..<length stretch]"
    by (simp add: mset_np_argsort ls)
  have "length v = n" by (simp add: v' length_np_argsort lo)
  moreover have "set v = set stretch" unfolding v' by (rule set_reorder[OF p])
  moreover have "sum_list v = sum_list stretch" unfolding v' by (rule sum_list_reorder[OF p])
  moreover have "\<bar>sum_list stretch\<bar> \<le> max_change"
    using wb by (simp add: within_budget_def stretch_def gk_def)
  moreover have "\<forall>x \<in> set stretch. \<bar>x\<bar> \<le> max_change_layer"
    using attempt_bound[OF ok assms(2)] by (auto simp: stretch_def)
  ultimately show ?thesis using n0 by (simp add: n_def)
qed

lemma random_scaling_returns:
  assumes "0 \<le> n" "within_budget (after_rounds k g (nat n) m) (nat n) mc m"
  shows "\<exists>v g'. random_scaling g n mc m = Some (Inr (v, g'))"
proof -
  from loop_returns[OF assms] obtain y where y: "random_scaling_loop g n mc m = Some y" by blast
  from loop_result[OF y] assms(1) obtain k' where
    "y = Inr (round_result (after_rounds k' g (nat n) m) (nat n) m)" by auto
  then obtain order stretch g' where
    y': "y = Inr (order, stretch, g')" and "length stretch = length order"
    by (metis prod_cases3 round_result_lengths)
  then show ?thesis
    by (simp add: random_scaling_def y reorder_ok)
qed

lemma random_scaling_no_error:
  assumes "0 \<le> n"
  shows "random_scaling g n mc m \<noteq> Some (Inl e)"
proof
  assume a: "random_scaling g n mc m = Some (Inl e)"
  then obtain y where y: "random_scaling_loop g n mc m = Some y"
    by (auto simp: random_scaling_def split: option.splits)
  from loop_result[OF y] assms(1) obtain k' where
    "y = Inr (round_result (after_rounds k' g (nat n) m) (nat n) m)" by auto
  then obtain order stretch g' where
    y': "y = Inr (order, stretch, g')" and "length stretch = length order"
    by (metis prod_cases3 round_result_lengths)
  with a y show False by (simp add: random_scaling_def reorder_ok)
qed

text \<open>
  Claim C3 (as amended). \<^verbatim>\<open>random_scaling\<close> has no retry cap and no error for an
  unsatisfiable budget: for \<open>layer_num \<ge> 0\<close> it returns a vector exactly when some round of its
  \<^verbatim>\<open>while True\<close> loop draws a vector whose sum is within \<open>max_change\<close>, and it never
  returns exactly when no round does.
\<close>

theorem random_scaling_unbounded_retries:
  assumes "0 \<le> layer_num"
  shows "((\<exists>v g'. random_scaling g layer_num max_change max_change_layer = Some (Inr (v, g'))) \<longleftrightarrow>
          (\<exists>k. within_budget (after_rounds k g (nat layer_num) max_change_layer)
                  (nat layer_num) max_change max_change_layer)) \<and>
         (random_scaling g layer_num max_change max_change_layer = None \<longleftrightarrow>
          (\<forall>k. \<not> within_budget (after_rounds k g (nat layer_num) max_change_layer)
                  (nat layer_num) max_change max_change_layer))"
proof -
  have a: "(\<exists>v g'. random_scaling g layer_num max_change max_change_layer = Some (Inr (v, g'))) \<longleftrightarrow>
          (\<exists>k. within_budget (after_rounds k g (nat layer_num) max_change_layer)
                  (nat layer_num) max_change max_change_layer)"
    using random_scaling_returns[OF assms] random_scaling_Inr
    by (metis (no_types, lifting))
  have "random_scaling g layer_num max_change max_change_layer = None \<longleftrightarrow>
        \<not> (\<exists>v g'. random_scaling g layer_num max_change max_change_layer = Some (Inr (v, g')))"
    using random_scaling_no_error[OF assms, of g max_change max_change_layer]
    by (cases "random_scaling g layer_num max_change max_change_layer") (auto, metis old.sum.exhaust surj_pair)
  with a show ?thesis by blast
qed

lemma negative_budget_never_met: "mc < 0 \<Longrightarrow> \<not> within_budget g n mc m"
  by (simp add: within_budget_def)


lemma g0_ok: "rng_ok g0"
  by (simp add: g0_def rng_ok_def)

lemma attempt_g0:
  "attempt g0 2 (7/10) = ([7/20, - 7/20], g0\<lparr>ncalls := 3\<rparr>)"
  by (simp add: attempt_def g0_def draw_stretch_eq upt_rec numeral_2_eq_2 numeral_3_eq_3)

lemma random_scaling_g0:
  "random_scaling g0 2 (1/10) (7/10) = Some (Inr ([- 7/20, 7/20], g0\<lparr>ncalls := 3\<rparr>))"
proof -
  have wb: "within_budget g0 (nat 2) (1/10) (7/10)"
    by (simp add: within_budget_def attempt_g0)
  have "random_scaling_loop g0 2 (1/10) (7/10) = Some (Inr (round_result g0 (nat 2) (7/10)))"
    using wb by (subst loop_unfold) simp_all
  moreover have "round_result g0 (nat 2) (7/10) = ([1, 0], [7/20, - 7/20], g0\<lparr>ncalls := 3\<rparr>)"
    by (simp add: round_result_def attempt_g0) (simp add: g0_def upt_rec numeral_2_eq_2)
  moreover have "np_argsort [1, 0] = [1, 0]"
    by (simp add: np_argsort_def upt_rec numeral_2_eq_2)
  ultimately show ?thesis
    by (simp add: random_scaling_def fancy_index_def)
qed

theorem random_scaling_invariants_witness:
  "rng_ok g0 \<and> (0::real) \<le> 7/10 \<and>
   random_scaling g0 2 (1/10) (7/10) = Some (Inr ([- 7/20, 7/20], g0\<lparr>ncalls := 3\<rparr>)) \<and>
   int (length [- 7/20, 7/20 :: real]) = 2 \<and> \<bar>- 7/20 :: real\<bar> \<le> 7/10 \<and> \<bar>7/20 :: real\<bar> \<le> 7/10 \<and>
   \<bar>sum_list [- 7/20, 7/20 :: real]\<bar> \<le> 1/10"
  using random_scaling_invariants[OF g0_ok _ random_scaling_g0] g0_ok random_scaling_g0
  by simp

theorem random_scaling_unbounded_retries_witness:
  "(0::int) \<le> 2 \<and> within_budget (after_rounds 0 g0 (nat 2) (7/10)) (nat 2) (1/10) (7/10) \<and>
   (\<exists>v g'. random_scaling g0 2 (1/10) (7/10) = Some (Inr (v, g'))) \<and>
   (\<forall>k. \<not> within_budget (after_rounds k g0 (nat 2) (7/10)) (nat 2) (- 1) (7/10)) \<and>
   random_scaling g0 2 (- 1) (7/10) = None"
proof -
  have wb: "within_budget (after_rounds 0 g0 (nat 2) (7/10)) (nat 2) (1/10) (7/10)"
    by (simp add: within_budget_def attempt_g0)
  have nb: "\<forall>k. \<not> within_budget (after_rounds k g0 (nat 2) (7/10)) (nat 2) (- 1) (7/10)"
    by (simp add: negative_budget_never_met)
  have z: "(0::int) \<le> 2" by simp
  from random_scaling_unbounded_retries[OF z, of g0 "1/10" "7/10"] wb
  have "\<exists>v g'. random_scaling g0 2 (1/10) (7/10) = Some (Inr (v, g'))" by blast
  moreover from random_scaling_unbounded_retries[OF z, of g0 "- 1" "7/10"] nb
  have "random_scaling g0 2 (- 1) (7/10) = None" by blast
  ultimately show ?thesis using wb nb by simp
qed

text \<open>
  With a negative total budget no round can succeed: the call neither returns nor raises.
\<close>

theorem random_scaling_no_retry_cap: "random_scaling g0 2 (- 1) (7/10) = None"
proof (cases "random_scaling g0 2 (- 1) (7/10)")
  case None
  then show ?thesis .
next
  case (Some r)
  have ne: "random_scaling g0 2 (- 1) (7/10) \<noteq> Some (Inl e)" for e
    by (rule random_scaling_no_error) simp
  with Some obtain v g' where "random_scaling g0 2 (- 1) (7/10) = Some (Inr (v, g'))"
    by (cases r) auto
  from random_scaling_Inr[OF this] negative_budget_never_met[of "- 1"] show ?thesis by auto
qed

section \<open>Properties of \<^verbatim>\<open>calc_density\<close>\<close>


lemma as_floats_Flt: "as_floats (map Flt xs) = Inr xs"
  by (induction xs) (simp_all add: ebind_def)

lemma density_at_pos:
  "0 < F \<Longrightarrow> density_at c0 c1 c2 c3 (Fin F) (Fin L) = Fin (density_spec c0 c1 c2 c3 F L)"
  by (simp add: density_at_def density_spec_def)

text \<open>
  Claim C10. On a table whose \<^verbatim>\<open>force_median\<close> column holds positive numbers,
  \<^verbatim>\<open>calc_density\<close> returns, row by row, \<open>round(c0 + c1\<cdot>ln F + c2\<cdot>ln F\<cdot>L + c3\<cdot>L, 1)\<close>; the
  instance below is the one of the spec: coefficients \<open>[312.54, 50.27, -50.26, -85.38]\<close>,
  \<open>F = 2.0\<close>, \<open>L = 0.05\<close>.
\<close>

theorem calc_density_formula:
  assumes "map_of shot_noise ''force_median'' = Some (map (\<lambda>F. Flt (Fin F)) Fs)"
    and "map_of shot_noise ''l'' = Some (map (\<lambda>L. Flt (Fin L)) Ls)"
    and "list_all (\<lambda>F. 0 < F) Fs"
  shows "calc_density shot_noise [c0, c1, c2, c3] False =
         Inr (Values (map (\<lambda>(F, L). Fin (density_spec c0 c1 c2 c3 F L)) (zip Fs Ls)))"
proof -
  have f: "as_floats (map (\<lambda>F. Flt (Fin F)) Fs) = Inr (map Fin Fs)"
    using as_floats_Flt[of "map Fin Fs"] by (simp add: comp_def)
  have l: "as_floats (map (\<lambda>L. Flt (Fin L)) Ls) = Inr (map Fin Ls)"
    using as_floats_Flt[of "map Fin Ls"] by (simp add: comp_def)
  have "map (\<lambda>(f, l). density_at c0 c1 c2 c3 f l) (zip (map Fin Fs) (map Fin Ls)) =
        map (\<lambda>(F, L). Fin (density_spec c0 c1 c2 c3 F L)) (zip Fs Ls)"
    using assms(3)
  proof (induction Fs arbitrary: Ls)
    case Nil
    then show ?case by simp
  next
    case (Cons F Fs)
    then show ?case by (cases Ls) (simp_all add: density_at_pos)
  qed
  then show ?thesis
    by (simp add: calc_density_def ebind_def py_index_def getattr_def assms(1,2) f l)
qed

theorem calc_density_formula_witness:
  "calc_density [(''force_median'', [Flt (Fin 2)]), (''l'', [Flt (Fin (5/100))])]
     [31254/100, 5027/100, - 5026/100, - 8538/100] False =
   Inr (Values [Fin (round_dec 1
     (31254/100 + 5027/100 * ln 2 + (- 5026/100) * ln 2 * (5/100) + (- 8538/100) * (5/100)))])"
  using calc_density_formula[of "[(''force_median'', [Flt (Fin 2)]), (''l'', [Flt (Fin (5/100))])]"
      "[2]" "[5/100]" "31254/100" "5027/100" "- 5026/100" "- 8538/100"]
  by (simp add: density_spec_def)

section \<open>Properties of \<^verbatim>\<open>extract_samples\<close>\<close>

text \<open>
  Claim C6. The claim says that the count of a row is the number of source samples inside
  the window. The code counts the non-zero \<^emph>\<open>values\<close> inside the window
  (\<^verbatim>\<open>np.count_nonzero(a_value[...])\<close>): two samples, of values 0 and 2, lie within 5 of the
  target depth 15, and the row's count is 1.
\<close>

theorem extract_samples_count_nonzero:
  "extract_samples [10, 20] [0, 2] [15] 5 =
     Inr [(''count_samp'', [Flt (Fin 1)]), (''mean_samp'', [Flt (Fin 1)]),
          (''median_samp'', [Flt (Fin 1)]), (''stdev_samp'', [Flt (Fin 1)])] \<and>
   samples_in_window [10, 20] 15 5 = 2"
  by (simp add: extract_samples_def window_def np_count_nonzero_def np_mean_def np_median_def
        np_std_def samples_in_window_def power2_eq_square)

text \<open>The part of C6 about empty windows holds: count 0, NaN statistics, no exception.\<close>

lemma extract_samples_empty_window:
  assumes "length a_height = length a_value" and "samples_in_window a_height d w = 0"
  shows "extract_samples a_height a_value [d] w =
     Inr [(''count_samp'', [Flt (Fin 0)]), (''mean_samp'', [Flt NaN]),
          (''median_samp'', [Flt NaN]), (''stdev_samp'', [Flt NaN])]"
proof -
  have "filter (\<lambda>h. \<bar>h - d\<bar> \<le> w) a_height = []"
    using assms(2) by (simp add: samples_in_window_def)
  then have "\<forall>h \<in> set a_height. \<not> \<bar>h - d\<bar> \<le> w"
    by (simp add: filter_empty_conv)
  then have "filter (\<lambda>p. \<bar>fst p - d\<bar> \<le> w) (zip a_height a_value) = []"
    by (auto simp: filter_empty_conv dest: set_zip_leftD)
  then have "window a_height a_value d w = []" by (simp add: window_def)
  then show ?thesis
    using assms(1)
    by (simp add: extract_samples_def np_count_nonzero_def np_mean_def np_median_def np_std_def)
qed

section \<open>Properties of \<^verbatim>\<open>calc_skill\<close>\<close>

lemma corrcoef_few: "length x = length y \<Longrightarrow> length x < 2 \<Longrightarrow> np_corrcoef10 x y = Inr NaN"
  by (simp add: np_corrcoef10_def)

text \<open>
  Claim C7 (as amended). When fewer than two rows are scored, \<^verbatim>\<open>calc_skill\<close> raises
  nothing and \<open>r\<close> is NaN; the RMSE is NaN when no row is left, and is
  \<open>|mean_samp - ref_val|\<close> of the one row that is left.
\<close>

theorem calc_skill_few_rows:
  assumes "scored_rows result drop_na = Inr result2"
    and "map_of result2 ''mean_samp'' = Some (map Flt ms)"
    and "map_of result2 ''ref_val'' = Some (map Flt vs)"
    and "length ms = length vs" and "length ms < 2"
  shows "\<exists>rmse. fst (calc_skill result window_size drop_na) = Inr (NaN, rmse) \<and>
           (ms = [] \<longrightarrow> rmse = NaN) \<and>
           (\<forall>m v. ms = [Fin m] \<and> vs = [Fin v] \<longrightarrow> rmse = Fin \<bar>m - v\<bar>)"
proof -
  have c: "fst (calc_skill result window_size drop_na) = Inr (NaN, rmse_of ms vs)"
    using assms
    by (simp add: calc_skill_def ebind_def getitem_def as_floats_Flt corrcoef_few)
  have "ms = [] \<Longrightarrow> rmse_of ms vs = NaN"
    by (simp add: rmse_of_def series_mean_def)
  moreover have "rmse_of [Fin m] [Fin v] = Fin \<bar>m - v\<bar>" for m v
    by (simp add: rmse_of_def series_mean_def fsub_def)
  ultimately show ?thesis using c by auto
qed

lemma scored_one_row: "scored_rows one_row True = Inr one_row"
  by (simp add: scored_rows_def one_row_def dropna_def nrows_def filter_rows_def ebind_def
        getitem_def)

text \<open>One scored row: \<open>r\<close> is NaN, the RMSE is the number 1.\<close>

theorem calc_skill_one_row:
  "scored_rows one_row True = Inr one_row \<and> nrows one_row = 1 \<and>
   fst (calc_skill one_row 15 True) = Inr (NaN, Fin 1)"
proof -
  have "fst (calc_skill one_row 15 True) = Inr (NaN, Fin 1)"
    by (simp add: calc_skill_def scored_one_row ebind_def)
       (simp add: one_row_def getitem_def ebind_def np_corrcoef10_def rmse_of_def
          series_mean_def fsub_def)
  then show ?thesis by (simp add: scored_one_row) (simp add: one_row_def nrows_def)
qed

theorem calc_skill_few_rows_witness:
  "scored_rows one_row True = Inr one_row \<and>
   map_of one_row ''mean_samp'' = Some (map Flt [Fin 1]) \<and>
   map_of one_row ''ref_val'' = Some (map Flt [Fin 2]) \<and>
   length [Fin 1] = length [Fin 2] \<and> length [Fin 1] < 2 \<and>
   fst (calc_skill one_row 15 True) = Inr (NaN, Fin 1)"
proof -
  have a: "map_of one_row ''mean_samp'' = Some (map Flt [Fin 1])"
    and b: "map_of one_row ''ref_val'' = Some (map Flt [Fin 2])"
    by (simp_all add: one_row_def)
  from calc_skill_few_rows[OF scored_one_row a b, of 15]
  show ?thesis using a b scored_one_row by auto
qed

section \<open>Properties of \<^verbatim>\<open>scale_profile\<close>\<close>

lemma first_min_less: "xs \<noteq> [] \<Longrightarrow> first_min xs < length xs"
  by (induction xs rule: first_min.induct) auto

lemma first_min_le: "j < length xs \<Longrightarrow> xs ! first_min xs \<le> xs ! j"
proof (induction xs arbitrary: j rule: first_min.induct)
  case 1
  then show ?case by simp
next
  case (2 x)
  then show ?case by simp
next
  case (3 x y ys)
  show ?case
  proof (cases j)
    case 0
    then show ?thesis by auto
  next
    case (Suc j')
    with "3.prems" have "j' < length (y # ys)" by simp
    then have "(y # ys) ! first_min (y # ys) \<le> (y # ys) ! j'" by (rule "3.IH"(1))
    with Suc show ?thesis by auto
  qed
qed

lemma first_min_strict: "j < first_min xs \<Longrightarrow> xs ! first_min xs < xs ! j"
proof (induction xs arbitrary: j rule: first_min.induct)
  case 1
  then show ?case by simp
next
  case (2 x)
  then show ?case by simp
next
  case (3 x y ys)
  show ?case
  proof (cases "x \<le> (y # ys) ! first_min (y # ys)")
    case True
    with "3.prems" show ?thesis by simp
  next
    case False
    show ?thesis
    proof (cases j)
      case 0
      with False show ?thesis by simp
    next
      case (Suc j')
      with "3.prems" False have "j' < first_min (y # ys)" by simp
      then have "(y # ys) ! first_min (y # ys) < (y # ys) ! j'" by (rule "3.IH"(1))
      with Suc False show ?thesis by simp
    qed
  qed
qed

lemma nearest_idx_near: "nearest_idx xs t = Inr a \<Longrightarrow> xs \<noteq> [] \<and> a = near xs t"
  by (auto simp: nearest_idx_def np_argmin_def near_def split: if_splits)

lemma near_less: "xs \<noteq> [] \<Longrightarrow> near xs t < length xs"
  using first_min_less[of "map (\<lambda>x. \<bar>x - t\<bar>) xs"] by (simp add: near_def)

lemma near_le: "j < length xs \<Longrightarrow> \<bar>xs ! near xs t - t\<bar> \<le> \<bar>xs ! j - t\<bar>"
proof -
  assume j: "j < length xs"
  then have ne: "xs \<noteq> []" by auto
  from first_min_le[of j "map (\<lambda>x. \<bar>x - t\<bar>) xs"] j near_less[OF ne, of t]
  show ?thesis by (simp add: near_def)
qed

lemma near_strict: "j < near xs t \<Longrightarrow> \<bar>xs ! near xs t - t\<bar> < \<bar>xs ! j - t\<bar>"
proof -
  assume j: "j < near xs t"
  have ne: "xs \<noteq> []" using j by (auto simp: near_def)
  from near_less[OF ne, of t] j have jl: "j < length xs" by simp
  from first_min_strict[of j "map (\<lambda>x. \<bar>x - t\<bar>) xs"] j jl near_less[OF ne, of t]
  show ?thesis by (simp add: near_def)
qed

lemma near_mono:
  assumes "sorted xs" "xs \<noteq> []" "t \<le> t'"
  shows "xs ! near xs t \<le> xs ! near xs t'"
proof (cases "near xs t \<le> near xs t'")
  case True
  then show ?thesis
    using assms(1) near_less[OF assms(2), of t'] by (simp add: sorted_iff_nth_mono)
next
  case False
  then have lt: "near xs t' < near xs t" by simp
  have a: "\<bar>xs ! near xs t - t\<bar> < \<bar>xs ! near xs t' - t\<bar>"
    by (rule near_strict[OF lt])
  have b: "\<bar>xs ! near xs t' - t'\<bar> \<le> \<bar>xs ! near xs t - t'\<bar>"
    by (rule near_le[OF near_less[OF assms(2)] ])
  have c: "xs ! near xs t' \<le> xs ! near xs t"
    using assms(1) lt near_less[OF assms(2), of t] by (simp add: sorted_iff_nth_mono)
  show ?thesis using a b c assms(3) by linarith
qed

lemma slice_elem:
  assumes "x \<in> set (slice xs a b)"
  shows "\<exists>k. a \<le> k \<and> k < b \<and> k < length xs \<and> x = xs ! k"
proof -
  from assms obtain i where i: "i < length (slice xs a b)" "x = slice xs a b ! i"
    by (auto simp: in_set_conv_nth)
  then have "i < b - a" "a + i < length xs" by (auto simp: slice_def)
  moreover from this i have "x = xs ! (a + i)" by (simp add: slice_def)
  ultimately show ?thesis by (intro exI[of _ "a + i"]) auto
qed

lemma sorted_slice: "sorted xs \<Longrightarrow> sorted (slice xs a b)"
  by (simp add: slice_def sorted_wrt_take sorted_wrt_drop)

lemma length_slice_eq: "length xs = length ys \<Longrightarrow> length (slice xs a b) = length (slice ys a b)"
  by (simp add: slice_def)

lemma rint_of_nat: "rint (real m) = int m"
  by (simp add: rint_def)

lemma zoom_length:
  assumes "zoom_length_ok zoom" "0 < k" "length xs = k"
  shows "length (zoom xs (real m / real k)) = m"
proof -
  have "real (length xs) * (real m / real k) = real m" using assms by simp
  then show ?thesis using assms(1) by (simp add: zoom_length_ok_def rint_of_nat)
qed

lemma floor_to_mono: "0 < h \<Longrightarrow> x \<le> y \<Longrightarrow> floor_to h x \<le> floor_to h y"
proof -
  assume h: "0 < h" and xy: "x \<le> y"
  then have "x / h \<le> y / h" by (simp add: divide_right_mono)
  then have "\<lfloor>x / h\<rfloor> \<le> \<lfloor>y / h\<rfloor>" by (rule floor_mono)
  then have "h * of_int \<lfloor>x / h\<rfloor> \<le> h * of_int \<lfloor>y / h\<rfloor>"
    using h by (simp add: mult_left_mono)
  then show ?thesis by (simp add: floor_to_def py_mod_def)
qed

lemma floor_to_zero: "floor_to h 0 = 0"
  by (simp add: floor_to_def py_mod_def)

lemma sum_take_mono:
  fixes lt :: "real list"
  assumes "\<forall>x \<in> set lt. 0 \<le> x"
  shows "sum_list (take i lt) \<le> sum_list (take (Suc i) lt)"
proof (cases "i < length lt")
  case True
  then have "take (Suc i) lt = take i lt @ [lt ! i]" by (simp add: take_Suc_conv_app_nth)
  moreover have "0 \<le> lt ! i" using assms True by simp
  ultimately show ?thesis by simp
next
  case False
  then show ?thesis by simp
qed


lemma ebind_Inr: "ebind m f = Inr y \<Longrightarrow> \<exists>x. m = Inr x \<and> f x = Inr y"
  by (cases m) (simp_all add: ebind_def)

lemma scale_layers_step:
  assumes "scale_layers zoom depth_array value_array l h lt ds (i # rest) (l_last, rd, rv) = Inr out"
  shows "ds \<noteq> [] \<and>
    (\<exists>a b. (if 2 < length (slice value_array a b) then
        length (slice depth_array a b) \<noteq> 0 \<and>
        scale_layers zoom depth_array value_array l h lt ds rest
          (floor_to h (sum_list (take (Suc i) lt)),
           rd @ slice ds (near ds (l_last + h)) (near ds (floor_to h (sum_list (take (Suc i) lt))) + 1),
           rv @ zoom (slice value_array a b)
              (real (length (slice ds (near ds (l_last + h))
                  (near ds (floor_to h (sum_list (take (Suc i) lt))) + 1))) /
               real (length (slice depth_array a b)))) = Inr out
      else scale_layers zoom depth_array value_array l h lt ds rest
          (floor_to h (sum_list (take (Suc i) lt)), rd, rv) = Inr out))"
proof -
  define C where "C = floor_to h (sum_list (take (Suc i) lt))"
  have C: "sum_list (take (i + 1) lt) - py_mod (sum_list (take (i + 1) lt)) h = C"
    by (simp add: C_def floor_to_def)
  note eq = assms[unfolded scale_layers.simps Let_def C]
  from ebind_Inr[OF eq] obtain a where r1:
    "ebind (nearest_idx depth_array (l * real i + l)) (\<lambda>ol_end_idx.
       ebind (nearest_idx ds C) (\<lambda>l_end_idx.
       ebind (nearest_idx ds (l_last + h)) (\<lambda>l_start_idx.
         if 2 < length (slice value_array a ol_end_idx) then
           if length (slice depth_array a ol_end_idx) = 0 then Inl ZeroDivisionError
           else scale_layers zoom depth_array value_array l h lt ds rest
                  (C, rd @ slice ds l_start_idx (l_end_idx + 1),
                   rv @ zoom (slice value_array a ol_end_idx)
                     (real (length (slice ds l_start_idx (l_end_idx + 1))) /
                      real (length (slice depth_array a ol_end_idx))))
         else scale_layers zoom depth_array value_array l h lt ds rest (C, rd, rv)))) = Inr out"
    by blast
  from ebind_Inr[OF r1] obtain b where r2:
    "ebind (nearest_idx ds C) (\<lambda>l_end_idx.
       ebind (nearest_idx ds (l_last + h)) (\<lambda>l_start_idx.
         if 2 < length (slice value_array a b) then
           if length (slice depth_array a b) = 0 then Inl ZeroDivisionError
           else scale_layers zoom depth_array value_array l h lt ds rest
                  (C, rd @ slice ds l_start_idx (l_end_idx + 1),
                   rv @ zoom (slice value_array a b)
                     (real (length (slice ds l_start_idx (l_end_idx + 1))) /
                      real (length (slice depth_array a b))))
         else scale_layers zoom depth_array value_array l h lt ds rest (C, rd, rv))) = Inr out"
    by blast
  from ebind_Inr[OF r2] obtain e where e: "nearest_idx ds C = Inr e" and r3:
    "ebind (nearest_idx ds (l_last + h)) (\<lambda>l_start_idx.
         if 2 < length (slice value_array a b) then
           if length (slice depth_array a b) = 0 then Inl ZeroDivisionError
           else scale_layers zoom depth_array value_array l h lt ds rest
                  (C, rd @ slice ds l_start_idx (e + 1),
                   rv @ zoom (slice value_array a b)
                     (real (length (slice ds l_start_idx (e + 1))) /
                      real (length (slice depth_array a b))))
         else scale_layers zoom depth_array value_array l h lt ds rest (C, rd, rv)) = Inr out"
    by blast
  from ebind_Inr[OF r3] obtain s where s: "nearest_idx ds (l_last + h) = Inr s" and r4:
    "(if 2 < length (slice value_array a b) then
           if length (slice depth_array a b) = 0 then Inl ZeroDivisionError
           else scale_layers zoom depth_array value_array l h lt ds rest
                  (C, rd @ slice ds s (e + 1),
                   rv @ zoom (slice value_array a b)
                     (real (length (slice ds s (e + 1))) /
                      real (length (slice depth_array a b))))
         else scale_layers zoom depth_array value_array l h lt ds rest (C, rd, rv)) = Inr out"
    by blast
  from nearest_idx_near[OF e] nearest_idx_near[OF s]
  have ne: "ds \<noteq> []" and e': "e = near ds C" and s': "s = near ds (l_last + h)" by simp_all
  have "(if 2 < length (slice value_array a b) then
        length (slice depth_array a b) \<noteq> 0 \<and>
        scale_layers zoom depth_array value_array l h lt ds rest
          (C, rd @ slice ds (near ds (l_last + h)) (near ds C + 1),
           rv @ zoom (slice value_array a b)
              (real (length (slice ds (near ds (l_last + h)) (near ds C + 1))) /
               real (length (slice depth_array a b)))) = Inr out
      else scale_layers zoom depth_array value_array l h lt ds rest (C, rd, rv) = Inr out)"
    using r4 unfolding e' s' by (auto split: if_splits)
  then show ?thesis using ne unfolding C_def by blast
qed

lemma scale_layers_inv:
  assumes zl: "zoom_length_ok zoom" and len: "length depth_array = length value_array"
    and h: "0 < h" and ds: "sorted ds" and lt: "\<forall>x \<in> set lt. 0 \<le> x"
  shows "scale_layers zoom depth_array value_array l h lt ds [i..<n] (l_last, rd, rv) = Inr (rd', rv')
         \<Longrightarrow> sorted rd \<Longrightarrow> length rd = length rv
         \<Longrightarrow> (\<forall>x \<in> set rd. x \<le> ds ! near ds l_last)
         \<Longrightarrow> l_last \<le> floor_to h (sum_list (take i lt))
         \<Longrightarrow> sorted rd' \<and> length rd' = length rv'"
proof (induction "n - i" arbitrary: i l_last rd rv)
  case 0
  then have "[i..<n] = []" by simp
  with 0 show ?case by simp
next
  case (Suc k)
  then have upt: "[i..<n] = i # [Suc i..<n]" by (simp add: upt_conv_Cons)
  define l_end where "l_end = floor_to h (sum_list (take (Suc i) lt))"
  define s where "s = near ds (l_last + h)"
  define e where "e = near ds l_end"
  from Suc.prems(1)[unfolded upt] scale_layers_step[of zoom depth_array value_array l h lt ds i "[Suc i..<n]" l_last rd rv "(rd', rv')"]
  obtain a b where ne: "ds \<noteq> []" and
    step: "(if 2 < length (slice value_array a b) then
        length (slice depth_array a b) \<noteq> 0 \<and>
        scale_layers zoom depth_array value_array l h lt ds [Suc i..<n]
          (l_end, rd @ slice ds s (e + 1),
           rv @ zoom (slice value_array a b)
              (real (length (slice ds s (e + 1))) / real (length (slice depth_array a b)))) = Inr (rd', rv')
      else scale_layers zoom depth_array value_array l h lt ds [Suc i..<n] (l_end, rd, rv) = Inr (rd', rv'))"
    unfolding l_end_def s_def e_def by blast
  have k: "k = n - Suc i" using Suc.hyps(2) by simp
  have le1: "l_last \<le> l_end"
    unfolding l_end_def
    using Suc.prems(5) floor_to_mono[OF h sum_take_mono[OF lt, of i] ] by simp
  have mono_e: "ds ! near ds l_last \<le> ds ! e"
    unfolding e_def by (rule near_mono[OF ds ne le1])
  have mono_s: "ds ! near ds l_last \<le> ds ! s"
    unfolding s_def using h by (intro near_mono[OF ds ne]) simp
  have e_lt: "e < length ds" unfolding e_def by (rule near_less[OF ne])
  have bound_old: "\<forall>x \<in> set rd. x \<le> ds ! e"
    using Suc.prems(4) mono_e by force
  have l_end_le: "l_end \<le> floor_to h (sum_list (take (Suc i) lt))"
    by (simp add: l_end_def)
  show ?case
  proof (cases "2 < length (slice value_array a b)")
    case False
    with step have rec: "scale_layers zoom depth_array value_array l h lt ds [Suc i..<n] (l_end, rd, rv) = Inr (rd', rv')"
      by simp
    show ?thesis
      by (rule Suc.hyps(1)[OF k rec Suc.prems(2) Suc.prems(3) _ l_end_le])
         (use bound_old in \<open>simp add: e_def\<close>)
  next
    case True
    define sd where "sd = slice ds s (e + 1)"
    define od where "od = slice depth_array a b"
    define ov where "ov = slice value_array a b"
    from True step have od0: "length od \<noteq> 0"
      and rec: "scale_layers zoom depth_array value_array l h lt ds [Suc i..<n]
          (l_end, rd @ sd, rv @ zoom ov (real (length sd) / real (length od))) = Inr (rd', rv')"
      by (simp_all add: sd_def od_def ov_def)
    have lov: "length ov = length od"
      unfolding ov_def od_def by (rule length_slice_eq[OF len[symmetric] ])
    have lz: "length (zoom ov (real (length sd) / real (length od))) = length sd"
      using od0 by (intro zoom_length[OF zl _ lov]) simp
    have sd_elem: "ds ! s \<le> y \<and> y \<le> ds ! e" if "y \<in> set sd" for y
    proof -
      from slice_elem[OF that[unfolded sd_def] ] obtain j where
        j: "s \<le> j" "j < e + 1" "j < length ds" "y = ds ! j" by blast
      then show ?thesis
        using ds e_lt by (auto simp: sorted_iff_nth_mono)
    qed
    have s1: "sorted (rd @ sd)"
      unfolding sorted_append
    proof (intro conjI ballI)
      show "sorted rd" by (rule Suc.prems(2))
      show "sorted sd" unfolding sd_def by (rule sorted_slice[OF ds])
      fix x y assume "x \<in> set rd" "y \<in> set sd"
      then show "x \<le> y"
        using Suc.prems(4) mono_s sd_elem[of y] by force
    qed
    have s2: "length (rd @ sd) = length (rv @ zoom ov (real (length sd) / real (length od)))"
      using Suc.prems(3) lz by simp
    have s3: "\<forall>x \<in> set (rd @ sd). x \<le> ds ! near ds l_end"
      using bound_old sd_elem by (auto simp: e_def)
    show ?thesis
      by (rule Suc.hyps(1)[OF k rec s1 s2 s3 l_end_le])
  qed
qed

lemma sorted_arange:
  assumes "0 < h" "np_arange0 stop h = Inr ds"
  shows "sorted ds"
proof -
  from assms have ds: "ds = map (\<lambda>i. real i * h) [0..<nat \<lceil>stop / h\<rceil>]"
    by (simp add: np_arange0_def)
  show ?thesis
    unfolding ds sorted_iff_nth_mono using assms(1) by (auto simp: mult_right_mono)
qed

lemma scale_profile_unfold:
  "scale_profile zoom scaling_guess depth_array value_array l_resample h_resample =
     (if length depth_array < 2 then Inl IndexError
      else ebind (np_arange0 (sum_list (thickness_of l_resample scaling_guess))
                   (step_of depth_array h_resample)) (\<lambda>depth_stretch.
             scale_layers zoom depth_array value_array l_resample
               (step_of depth_array h_resample) (thickness_of l_resample scaling_guess)
               depth_stretch [0..<length (thickness_of l_resample scaling_guess)]
               (- step_of depth_array h_resample, [], [])))"
  by (cases h_resample) (simp_all add: scale_profile_def Let_def step_of_def thickness_of_def)

text \<open>
  Claim C8. For every valid input --- depths that ascend, values aligned with them, a layer
  height that is not negative and a scaling vector of stretch fractions, each at least
  \<open>-1\<close> (so every vector whose elements are bounded in magnitude by a
  \<open>max_layer_stretch \<le> 1\<close>) --- every pair that \<^verbatim>\<open>scale_profile\<close> returns has a
  non-decreasing \<open>warped_depth\<close> and two arrays of the same length; \<open>zoom\<close> is any
  function with the result length of SciPy's.
\<close>

theorem scale_profile_sorted_equal_length:
  assumes "zoom_length_ok zoom"
    and "length depth_array = length value_array"
    and "0 \<le> l_resample"
    and "list_all (\<lambda>s. - 1 \<le> s) scaling_guess"
    and "case h_resample of None \<Rightarrow> depth_array ! 0 < depth_array ! 1 | Some h \<Rightarrow> 0 < h"
    and "scale_profile zoom scaling_guess depth_array value_array l_resample h_resample =
           Inr (warped_depth, warped_value)"
  shows "sorted warped_depth \<and> length warped_depth = length warped_value"
proof -
  define h where "h = step_of depth_array h_resample"
  define lt where "lt = thickness_of l_resample scaling_guess"
  have h: "0 < h" using assms(5) by (simp add: h_def step_of_def split: option.splits)
  have lt: "\<forall>x \<in> set lt. 0 \<le> x"
  proof
    fix x assume "x \<in> set lt"
    then obtain s where s: "s \<in> set scaling_guess" "x = l_resample + s * l_resample"
      by (auto simp: lt_def thickness_of_def)
    with assms(4) have "- 1 \<le> s" by (simp add: list_all_iff)
    then have "0 \<le> (1 + s) * l_resample" using assms(3) by simp
    then show "0 \<le> x" using s by (simp add: algebra_simps)
  qed
  have "\<not> length depth_array < 2" using assms(6) by (auto simp: scale_profile_unfold)
  with assms(6) have "ebind (np_arange0 (sum_list lt) h) (\<lambda>depth_stretch.
             scale_layers zoom depth_array value_array l_resample h lt
               depth_stretch [0..<length lt] (- h, [], [])) = Inr (warped_depth, warped_value)"
    unfolding scale_profile_unfold h_def lt_def by simp
  from ebind_Inr[OF this] obtain ds where ar: "np_arange0 (sum_list lt) h = Inr ds"
    and sl: "scale_layers zoom depth_array value_array l_resample h lt ds [0..<length lt] (- h, [], []) =
             Inr (warped_depth, warped_value)"
    by blast
  have ds: "sorted ds" by (rule sorted_arange[OF h ar])
  show ?thesis
    by (rule scale_layers_inv[OF assms(1,2) h ds lt sl])
       (use h in \<open>simp_all add: floor_to_zero\<close>)
qed

subsection \<open>Concrete runs\<close>

lemma zoom_hold_ok: "zoom_length_ok zoom_hold"
  by (simp add: zoom_length_ok_def zoom_hold_def)

lemma scale_layers_keep:
  assumes "nearest_idx depth_array (l * real i) = Inr a"
    and "nearest_idx depth_array (l * real i + l) = Inr b"
    and "sum_list (take (i + 1) lt) - py_mod (sum_list (take (i + 1) lt)) h = l_end"
    and "nearest_idx ds l_end = Inr e"
    and "nearest_idx ds (l_last + h) = Inr s"
    and "slice value_array a b = ov"
    and "slice depth_array a b = od"
    and "slice ds s (e + 1) = sd"
    and "2 < length ov" and "length od \<noteq> 0"
  shows "scale_layers zoom depth_array value_array l h lt ds (i # rest) (l_last, rd, rv) =
         scale_layers zoom depth_array value_array l h lt ds rest
           (l_end, rd @ sd, rv @ zoom ov (real (length sd) / real (length od)))"
proof -
  have "scale_layers zoom depth_array value_array l h lt ds (i # rest) (l_last, rd, rv) =
         scale_layers zoom depth_array value_array l h lt ds rest
           (l_end, rd @ slice ds s (e + 1),
            rv @ zoom (slice value_array a b)
              (real (length (slice ds s (e + 1))) / real (length (slice depth_array a b))))"
    using assms(9,10) unfolding assms(6-8)[symmetric] scale_layers.simps assms(1-5) Let_def ebind_def
    by simp
  then show ?thesis by (simp only: assms(6-8))
qed

lemma scale_layers_skip:
  assumes "nearest_idx depth_array (l * real i) = Inr a"
    and "nearest_idx depth_array (l * real i + l) = Inr b"
    and "sum_list (take (i + 1) lt) - py_mod (sum_list (take (i + 1) lt)) h = l_end"
    and "nearest_idx ds l_end = Inr e"
    and "nearest_idx ds (l_last + h) = Inr s"
    and "slice value_array a b = ov"
    and "\<not> 2 < length ov"
  shows "scale_layers zoom depth_array value_array l h lt ds (i # rest) (l_last, rd, rv) =
         scale_layers zoom depth_array value_array l h lt ds rest (l_end, rd, rv)"
  using assms(7) unfolding assms(6)[symmetric] scale_layers.simps assms(1-5) Let_def ebind_def
  by simp

lemma scale_profile_eval:
  assumes "\<not> length depth_array < 2"
    and "step_of depth_array h_resample = h"
    and "thickness_of l_resample scaling_guess = lt"
    and "np_arange0 (sum_list lt) h = Inr ds"
    and "[0..<length lt] = idx"
    and "scale_layers zoom depth_array value_array l_resample h lt ds idx (- h, [], []) = r"
  shows "scale_profile zoom scaling_guess depth_array value_array l_resample h_resample = r"
  using assms(1,6) unfolding scale_profile_unfold assms(2,3) assms(4) ebind_def assms(5)
  by simp

lemmas eval_defs = nearest_idx_def np_argmin_def py_mod_def slice_def

lemma upt8: "[0..<8] = [0, 1, 2, 3, 4, 5, 6, 7::nat]"
  by code_simp

lemma arange_8: "np_arange0 8 1 = Inr [0, 1, 2, 3, 4, 5, 6, 7]"
  by (simp add: np_arange0_def upt8)

lemma scale_profile_zero_general:
  "scale_profile zoom [0, 0] [0, 1, 2, 3, 4, 5, 6, 7, 8] [v0, v1, v2, v3, v4, v5, v6, v7, v8] 4 None =
     Inr ([0, 1, 2, 3, 4, 5, 6, 7], zoom [v0, v1, v2, v3] (5/4) @ zoom [v4, v5, v6, v7] (3/4))"
proof -
  let ?run = "scale_layers zoom [0, 1, 2, 3, 4, 5, 6, 7, 8] [v0, v1, v2, v3, v4, v5, v6, v7, v8] 4 1
      [4, 4] [0, 1, 2, 3, 4, 5, 6, 7]"
  have s0: "?run [0, 1] (- 1, [], []) =
    ?run [1] (4, [] @ [0, 1, 2, 3, 4],
       [] @ zoom [v0, v1, v2, v3] (real (length [0, 1, 2, 3, 4::real]) / real (length [0, 1, 2, 3::real])))"
    by (rule scale_layers_keep[where a=0 and b=4 and e=4 and s=0]) (simp_all add: eval_defs)
  have s1: "?run [1] (4, [0, 1, 2, 3, 4], zoom [v0, v1, v2, v3] (5/4)) =
    ?run [] (8, [0, 1, 2, 3, 4] @ [5, 6, 7], zoom [v0, v1, v2, v3] (5/4) @
         zoom [v4, v5, v6, v7] (real (length [5, 6, 7::real]) / real (length [4, 5, 6, 7::real])))"
    by (rule scale_layers_keep[where a=4 and b=8 and e=7 and s=5]) (simp_all add: eval_defs)
  have u: "[0..<2] = [0, 1::nat]" by code_simp
  have r: "?run [0, 1] (- 1, [], []) =
     Inr ([0, 1, 2, 3, 4, 5, 6, 7], zoom [v0, v1, v2, v3] (5/4) @ zoom [v4, v5, v6, v7] (3/4))"
    unfolding s0 using s1 by simp
  show ?thesis
    by (rule scale_profile_eval[OF _ _ _ _ _ r])
       (simp_all add: step_of_def thickness_of_def arange_8 u)
qed

text \<open>
  Claim C5. The claim says that an all-zero scaling vector reproduces the source profile.
  On nine samples at depths 0..8 and two layers of height 4 the code gives the first layer
  five output depths 0..4 (its slice of the stretched axis includes both ends) filled from
  the four source values of depths 0..3, and the second layer the three depths 5..7 filled
  from the four source values of depths 4..7: whatever \<open>zoom\<close> is, the source value of
  depth 4 cannot appear at depth 4.
\<close>

theorem scale_profile_zero_scaling:
  "scale_profile zoom [0, 0] [0, 1, 2, 3, 4, 5, 6, 7, 8] [10, 20, 30, 40, 50, 60, 70, 80, 90] 4 None =
     Inr ([0, 1, 2, 3, 4, 5, 6, 7], zoom [10, 20, 30, 40] (5/4) @ zoom [50, 60, 70, 80] (3/4))"
proof -
  let ?run = "scale_layers zoom [0, 1, 2, 3, 4, 5, 6, 7, 8] [10, 20, 30, 40, 50, 60, 70, 80, 90] 4 1
      [4, 4] [0, 1, 2, 3, 4, 5, 6, 7]"
  have first_layer: "?run [0, 1] (- 1, [], []) =
    ?run [1] (4, [] @ [0, 1, 2, 3, 4],
       [] @ zoom [10, 20, 30, 40]
         (real (length [0, 1, 2, 3, 4::real]) / real (length [0, 1, 2, 3::real])))"
    by (rule scale_layers_keep[where a=0 and b=4 and e=4 and s=0]) (simp_all add: eval_defs)
  have second_layer: "?run [1] (4, [0, 1, 2, 3, 4], zoom [10, 20, 30, 40] (5/4)) =
    ?run [] (8, [0, 1, 2, 3, 4] @ [5, 6, 7], zoom [10, 20, 30, 40] (5/4) @
       zoom [50, 60, 70, 80]
         (real (length [5, 6, 7::real]) / real (length [4, 5, 6, 7::real])))"
    by (rule scale_layers_keep[where a=4 and b=8 and e=7 and s=5]) (simp_all add: eval_defs)
  have layers: "[0..<2] = [0, 1::nat]" by code_simp
  have loop: "?run [0, 1] (- 1, [], []) =
     Inr ([0, 1, 2, 3, 4, 5, 6, 7], zoom [10, 20, 30, 40] (5/4) @ zoom [50, 60, 70, 80] (3/4))"
    unfolding first_layer using second_layer by simp
  show ?thesis
    by (rule scale_profile_eval[OF _ _ _ _ _ loop])
       (simp_all add: step_of_def thickness_of_def arange_8 layers)
qed

text \<open>
  The output sample at depth 4 is computed from the source samples of depths 0..3 alone:
  for some source value at depth 4 it differs from it, whatever \<open>zoom\<close> is.
\<close>

lemma zero_scaling_not_identity:
  assumes "zoom_length_ok zoom"
  shows "\<exists>v4. \<forall>wd wv.
           scale_profile zoom [0, 0] [0, 1, 2, 3, 4, 5, 6, 7, 8]
             [10, 20, 30, 40, v4, 60, 70, 80, 90] 4 None = Inr (wd, wv) \<longrightarrow>
           wd ! 4 = 4 \<and> wv ! 4 \<noteq> v4"
proof -
  define z where "z = zoom [10, 20, 30, 40] (5/4)"
  have lz: "length z = 5"
    using assms by (simp add: z_def zoom_length_ok_def rint_def)
  have out: "scale_profile zoom [0, 0] [0, 1, 2, 3, 4, 5, 6, 7, 8]
             [10, 20, 30, 40, v4, 60, 70, 80, 90] 4 None =
             Inr ([0, 1, 2, 3, 4, 5, 6, 7], z @ zoom [v4, 60, 70, 80] (3/4))" for v4
    unfolding z_def by (rule scale_profile_zero_general)
  have "(z @ zoom [v4, 60, 70, 80] (3/4)) ! 4 = z ! 4" for v4
    using lz by (simp add: nth_append)
  then show ?thesis
    by (intro exI[of _ "z ! 4 + 1"]) (simp add: out)
qed

lemma arange_15_2: "np_arange0 (15/2) 1 = Inr [0, 1, 2, 3, 4, 5, 6, 7]"
  by (simp add: np_arange0_def upt8)

lemma scale_profile_negative_layer:
  "scale_profile zoom_hold [0, 0, - 3, 2] [0, 1, 2, 3, 4, 5, 6, 7, 8, 9, 10]
     [10, 20, 30, 40, 50, 60, 70, 80, 90, 100, 110] (5/2) None =
   Inr ([3, 4, 5, 1, 2, 3, 4, 5, 6, 7],
        zoom_hold [30, 40, 50] 1 @ zoom_hold [80, 90, 100] (7/3))"
proof -
  let ?da = "[0, 1, 2, 3, 4, 5, 6, 7, 8, 9, 10::real]"
  let ?va = "[10, 20, 30, 40, 50, 60, 70, 80, 90, 100, 110::real]"
  let ?lt = "[5/2, 5/2, - 5, 15/2::real]"
  let ?ds = "[0, 1, 2, 3, 4, 5, 6, 7::real]"
  let ?run = "scale_layers zoom_hold ?da ?va (5/2) 1 ?lt ?ds"
  have s0: "?run [0, 1, 2, 3] (- 1, [], []) = ?run [1, 2, 3] (2, [], [])"
    by (rule scale_layers_skip[where a=0 and b=2 and e=2 and s=0 and ov="[10, 20]"])
       (simp_all add: eval_defs)
  have s1: "?run [1, 2, 3] (2, [], []) =
            ?run [2, 3] (5, [] @ [3, 4, 5],
              [] @ zoom_hold [30, 40, 50] (real (length [3, 4, 5::real]) / real (length [2, 3, 4::real])))"
    by (rule scale_layers_keep[where a=2 and b=5 and e=5 and s=3]) (simp_all add: eval_defs)
  have s2: "?run [2, 3] (5, [3, 4, 5], zoom_hold [30, 40, 50] 1) =
            ?run [3] (0, [3, 4, 5], zoom_hold [30, 40, 50] 1)"
    by (rule scale_layers_skip[where a=5 and b=7 and e=0 and s=6 and ov="[60, 70]"])
       (simp_all add: eval_defs)
  have s3: "?run [3] (0, [3, 4, 5], zoom_hold [30, 40, 50] 1) =
            ?run [] (7, [3, 4, 5] @ [1, 2, 3, 4, 5, 6, 7],
              zoom_hold [30, 40, 50] 1 @
              zoom_hold [80, 90, 100] (real (length [1, 2, 3, 4, 5, 6, 7::real]) / real (length [7, 8, 9::real])))"
    by (rule scale_layers_keep[where a=7 and b=10 and e=7 and s=1]) (simp_all add: eval_defs)
  have u: "[0..<4] = [0, 1, 2, 3::nat]" by code_simp
  have r: "?run [0, 1, 2, 3] (- 1, [], []) =
     Inr ([3, 4, 5, 1, 2, 3, 4, 5, 6, 7], zoom_hold [30, 40, 50] 1 @ zoom_hold [80, 90, 100] (7/3))"
    unfolding s0 using s1 s2 s3 by simp
  show ?thesis
    by (rule scale_profile_eval[OF _ _ _ _ _ r])
       (simp_all add: step_of_def thickness_of_def arange_15_2 u)
qed

text \<open>
  The bound \<open>-1\<close> is needed. A stretch of \<open>-3\<close> is no stretch fraction: it gives a layer
  of negative thickness, the cumulative thickness goes back, and the depths of the last
  layer restart below those of an earlier one.
\<close>

lemma scale_profile_unsorted:
  "scale_profile zoom_hold [0, 0, - 3, 2] [0, 1, 2, 3, 4, 5, 6, 7, 8, 9, 10]
     [10, 20, 30, 40, 50, 60, 70, 80, 90, 100, 110] (5/2) None =
   Inr ([3, 4, 5, 1, 2, 3, 4, 5, 6, 7],
        zoom_hold [30, 40, 50] 1 @ zoom_hold [80, 90, 100] (7/3)) \<and>
   \<not> sorted [3, 4, 5, 1, 2, 3, 4, 5, 6, 7::real]"
  using scale_profile_negative_layer by simp

lemma scale_profile_quarter:
  "scale_profile zoom_hold [1/4, - 1/4] [0, 1, 2, 3, 4, 5, 6, 7, 8]
     [10, 20, 30, 40, 50, 60, 70, 80, 90] 4 None =
   Inr ([0, 1, 2, 3, 4, 5, 6, 7],
        zoom_hold [10, 20, 30, 40] (3/2) @ zoom_hold [50, 60, 70, 80] (1/2))"
proof -
  let ?da = "[0, 1, 2, 3, 4, 5, 6, 7, 8::real]"
  let ?va = "[10, 20, 30, 40, 50, 60, 70, 80, 90::real]"
  let ?ds = "[0, 1, 2, 3, 4, 5, 6, 7::real]"
  let ?run = "scale_layers zoom_hold ?da ?va 4 1 [5, 3] ?ds"
  have s0: "?run [0, 1] (- 1, [], []) =
            ?run [1] (5, [] @ [0, 1, 2, 3, 4, 5],
              [] @ zoom_hold [10, 20, 30, 40]
                (real (length [0, 1, 2, 3, 4, 5::real]) / real (length [0, 1, 2, 3::real])))"
    by (rule scale_layers_keep[where a=0 and b=4 and e=5 and s=0]) (simp_all add: eval_defs)
  have s1: "?run [1] (5, [0, 1, 2, 3, 4, 5], zoom_hold [10, 20, 30, 40] (3/2)) =
            ?run [] (8, [0, 1, 2, 3, 4, 5] @ [6, 7],
              zoom_hold [10, 20, 30, 40] (3/2) @
              zoom_hold [50, 60, 70, 80] (real (length [6, 7::real]) / real (length [4, 5, 6, 7::real])))"
    by (rule scale_layers_keep[where a=4 and b=8 and e=7 and s=6]) (simp_all add: eval_defs)
  have u: "[0..<2] = [0, 1::nat]" by code_simp
  have r: "?run [0, 1] (- 1, [], []) =
     Inr ([0, 1, 2, 3, 4, 5, 6, 7], zoom_hold [10, 20, 30, 40] (3/2) @ zoom_hold [50, 60, 70, 80] (1/2))"
    unfolding s0 using s1 by simp
  show ?thesis
    by (rule scale_profile_eval[OF _ _ _ _ _ r])
       (simp_all add: step_of_def thickness_of_def arange_8 u)
qed

theorem scale_profile_sorted_equal_length_witness:
  "zoom_length_ok zoom_hold \<and>
   length [0, 1, 2, 3, 4, 5, 6, 7, 8::real] = length [10, 20, 30, 40, 50, 60, 70, 80, 90::real] \<and>
   (0::real) \<le> 4 \<and> list_all (\<lambda>s. - 1 \<le> s) [1/4, - 1/4 :: real] \<and>
   [0, 1, 2, 3, 4, 5, 6, 7, 8::real] ! 0 < [0, 1, 2, 3, 4, 5, 6, 7, 8::real] ! 1 \<and>
   scale_profile zoom_hold [1/4, - 1/4] [0, 1, 2, 3, 4, 5, 6, 7, 8]
     [10, 20, 30, 40, 50, 60, 70, 80, 90] 4 None =
   Inr ([0, 1, 2, 3, 4, 5, 6, 7],
        zoom_hold [10, 20, 30, 40] (3/2) @ zoom_hold [50, 60, 70, 80] (1/2)) \<and>
   sorted [0, 1, 2, 3, 4, 5, 6, 7::real] \<and>
   length [0, 1, 2, 3, 4, 5, 6, 7::real] =
   length (zoom_hold [10, 20, 30, 40] (3/2) @ zoom_hold [50, 60, 70, 80] (1/2))"
proof -
  have "sorted [0, 1, 2, 3, 4, 5, 6, 7::real] \<and>
   length [0, 1, 2, 3, 4, 5, 6, 7::real] =
   length (zoom_hold [10, 20, 30, 40] (3/2) @ zoom_hold [50, 60, 70, 80] (1/2))"
    by (rule scale_profile_sorted_equal_length[OF zoom_hold_ok _ _ _ _ scale_profile_quarter])
       simp_all
  then show ?thesis
    using zoom_hold_ok scale_profile_quarter by simp
qed

section \<open>Properties of \<^verbatim>\<open>eval_scaling\<close>\<close>

lemma takeWhile_stop: "c \<in> set xs \<Longrightarrow> xs ! length (takeWhile (\<lambda>n. n \<noteq> c) xs) = c"
  by (induction xs) auto

lemma get_loc_nth: "c \<in> set (columns t) \<Longrightarrow> columns t ! get_loc t c = c"
  by (simp add: get_loc_def takeWhile_stop)

lemma ref_type_of_eq:
  "ref_type_of ref_dat =
     (if ''density'' \<in> set (columns ref_dat) then Inr ''density''
      else if ''ssa'' \<in> set (columns ref_dat) then Inr ''ssa'' else Inl IndexError)"
  by (simp add: ref_type_of_def py_index_def get_loc_nth)

lemma score_trials_ref_type:
  "score_trials zoom smp_dat ref_dat ref_type tests num_tests layer_h samp_h = Inr (meta, result)
   \<Longrightarrow> meta_ref_type meta = ref_type"
  by (auto simp: score_trials_def dest!: ebind_Inr split: prod.splits)

lemma eval_scaling_Inr:
  assumes "eval_scaling zoom g smp_dat ref_dat num_tests layer_h ms mls samp_h =
             Some (Inr (meta, result), smp', ref', g')"
  shows "\<exists>ref_type num_sections tests.
           ref_type_of ref_dat = Inr ref_type \<and>
           smp' = rename ref_type ''smp_val'' smp_dat \<and> ref' = rename ref_type ''ref_val'' ref_dat \<and>
           layer_count smp' ref' num_tests layer_h = Inr num_sections \<and>
           random_tests (nat num_tests) g num_sections ms mls = Some (Inr tests, g') \<and>
           score_trials zoom smp' ref' ref_type tests num_tests layer_h samp_h = Inr (meta, result)"
  using assms
  by (auto simp: eval_scaling_def Let_def split: sum.splits option.splits prod.splits)

lemma eval_scaling_tables:
  assumes "eval_scaling zoom g smp_dat ref_dat num_tests layer_h ms mls samp_h =
             Some (res, smp', ref', g')"
  shows "case ref_type_of ref_dat of
           Inl e \<Rightarrow> smp' = smp_dat \<and> ref' = ref_dat
         | Inr ref_type \<Rightarrow>
             smp' = rename ref_type ''smp_val'' smp_dat \<and> ref' = rename ref_type ''ref_val'' ref_dat"
  using assms
  by (auto simp: eval_scaling_def Let_def split: sum.splits option.splits prod.splits)

lemma rename_cells: "map snd (rename old new t) = map snd t"
  by (simp add: rename_def comp_def)

lemma eval_scaling_eq:
  "eval_scaling zoom g smp_dat ref_dat num_tests layer_h max_stretch max_layer_stretch samp_h =
     (case ref_type_of ref_dat of
        Inl e \<Rightarrow> Some (Inl e, smp_dat, ref_dat, g)
      | Inr ref_type \<Rightarrow>
          eval_scaling_with ref_type zoom g smp_dat ref_dat num_tests layer_h max_stretch
            max_layer_stretch samp_h)"
  by (simp add: eval_scaling_def eval_scaling_with_def Let_def split: sum.splits)

lemma rename_changes:
  assumes "old \<in> set (columns t)" "new \<noteq> old"
  shows "rename old new t \<noteq> t"
proof
  assume eq: "rename old new t = t"
  from assms(1) obtain c where c: "c \<in> set t" "fst c = old" by (auto simp: columns_def)
  then obtain i where i: "i < length t" "t ! i = c" by (auto simp: in_set_conv_nth)
  from eq have "rename old new t ! i = t ! i" by simp
  with i c have "(new, snd c) = c" by (simp add: rename_def)
  then have "new = fst c" by (metis fst_conv)
  with c assms(2) show False by simp
qed

lemma eval_scaling_with_tables:
  "eval_scaling_with ref_type zoom g smp_dat ref_dat num_tests layer_h max_stretch
     max_layer_stretch samp_h = Some (res, smp', ref', g') \<Longrightarrow>
   smp' = rename ref_type ''smp_val'' smp_dat \<and> ref' = rename ref_type ''ref_val'' ref_dat"
  by (auto simp: eval_scaling_with_def split: sum.splits option.splits prod.splits)

text \<open>
  Claim C4 (as amended). \<^verbatim>\<open>eval_scaling\<close> fails before any trial, with IndexError and
  with the tables and the generator untouched, when the reference table has neither a
  \<^verbatim>\<open>density\<close> nor an \<^verbatim>\<open>ssa\<close> column. When \<^verbatim>\<open>density\<close> is a column, alone or together
  with \<^verbatim>\<open>ssa\<close>, the check does not fail: the call is lines 218--243 run with the
  reference type \<^verbatim>\<open>density\<close> on the tables as they are given, and whatever it returns or
  raises later, the reference table has had \<^verbatim>\<open>density\<close> renamed to \<^verbatim>\<open>ref_val\<close> and kept
  all its other columns, \<^verbatim>\<open>ssa\<close> included. \<^verbatim>\<open>ssa\<close> is the reference type only when
  \<^verbatim>\<open>density\<close> is absent.
\<close>

theorem eval_scaling_reference_type:
  "(''density'' \<notin> set (columns ref_dat) \<and> ''ssa'' \<notin> set (columns ref_dat) \<longrightarrow>
      eval_scaling zoom g smp_dat ref_dat num_tests layer_h max_stretch max_layer_stretch samp_h =
        Some (Inl IndexError, smp_dat, ref_dat, g)) \<and>
   (''density'' \<in> set (columns ref_dat) \<longrightarrow>
      eval_scaling zoom g smp_dat ref_dat num_tests layer_h max_stretch max_layer_stretch samp_h =
        eval_scaling_with ''density'' zoom g smp_dat ref_dat num_tests layer_h max_stretch
          max_layer_stretch samp_h \<and>
      (\<forall>res smp' ref' g'.
         eval_scaling zoom g smp_dat ref_dat num_tests layer_h max_stretch max_layer_stretch
           samp_h = Some (res, smp', ref', g') \<longrightarrow>
         ref' = rename ''density'' ''ref_val'' ref_dat \<and> ref' \<noteq> ref_dat \<and>
         columns ref' = map (\<lambda>n. if n = ''density'' then ''ref_val'' else n) (columns ref_dat))) \<and>
   (''density'' \<notin> set (columns ref_dat) \<and> ''ssa'' \<in> set (columns ref_dat) \<longrightarrow>
      eval_scaling zoom g smp_dat ref_dat num_tests layer_h max_stretch max_layer_stretch samp_h =
        eval_scaling_with ''ssa'' zoom g smp_dat ref_dat num_tests layer_h max_stretch
          max_layer_stretch samp_h)"
proof (intro conjI impI allI)
  assume "''density'' \<notin> set (columns ref_dat) \<and> ''ssa'' \<notin> set (columns ref_dat)"
  then show "eval_scaling zoom g smp_dat ref_dat num_tests layer_h max_stretch max_layer_stretch samp_h =
        Some (Inl IndexError, smp_dat, ref_dat, g)"
    by (simp add: eval_scaling_eq ref_type_of_eq)
next
  assume d: "''density'' \<in> set (columns ref_dat)"
  then show e: "eval_scaling zoom g smp_dat ref_dat num_tests layer_h max_stretch max_layer_stretch samp_h =
        eval_scaling_with ''density'' zoom g smp_dat ref_dat num_tests layer_h max_stretch
          max_layer_stretch samp_h"
    by (simp add: eval_scaling_eq ref_type_of_eq)
  fix res smp' ref' g'
  assume "eval_scaling zoom g smp_dat ref_dat num_tests layer_h max_stretch max_layer_stretch
           samp_h = Some (res, smp', ref', g')"
  with e have "eval_scaling_with ''density'' zoom g smp_dat ref_dat num_tests layer_h max_stretch
          max_layer_stretch samp_h = Some (res, smp', ref', g')" by simp
  from eval_scaling_with_tables[OF this]
  show r: "ref' = rename ''density'' ''ref_val'' ref_dat" by simp
  show "ref' \<noteq> ref_dat" unfolding r by (rule rename_changes[OF d]) simp
  show "columns ref' = map (\<lambda>n. if n = ''density'' then ''ref_val'' else n) (columns ref_dat)"
    unfolding r by (simp add: columns_def rename_def comp_def)
next
  assume "''density'' \<notin> set (columns ref_dat) \<and> ''ssa'' \<in> set (columns ref_dat)"
  then show "eval_scaling zoom g smp_dat ref_dat num_tests layer_h max_stretch max_layer_stretch samp_h =
        eval_scaling_with ''ssa'' zoom g smp_dat ref_dat num_tests layer_h max_stretch
          max_layer_stretch samp_h"
    by (simp add: eval_scaling_eq ref_type_of_eq)
qed

text \<open>
  Claim C9 (as amended). \<^verbatim>\<open>eval_scaling\<close> changes the two tables it is given in place,
  and only by renaming a column: the reference column becomes \<^verbatim>\<open>ref_val\<close> in the reference
  table and \<^verbatim>\<open>smp_val\<close> in the profile table, all cells stay as they are.
  \<^verbatim>\<open>calc_skill\<close> changes the table it is given by removing the rows with a NaN when
  \<^verbatim>\<open>drop_na\<close> is set, and leaves it unchanged otherwise.
\<close>

theorem tables_changed_in_place:
  "(\<forall>res smp' ref' g'.
      eval_scaling zoom g smp_dat ref_dat num_tests layer_h max_stretch max_layer_stretch samp_h =
        Some (res, smp', ref', g') \<longrightarrow>
      map snd smp' = map snd smp_dat \<and> map snd ref' = map snd ref_dat \<and>
      (case ref_type_of ref_dat of
         Inl e \<Rightarrow> smp' = smp_dat \<and> ref' = ref_dat
       | Inr ref_type \<Rightarrow>
           smp' = rename ref_type ''smp_val'' smp_dat \<and>
           ref' = rename ref_type ''ref_val'' ref_dat)) \<and>
   snd (calc_skill result window_size drop_na) = (if drop_na then dropna result else result)"
proof (intro conjI allI impI)
  fix res smp' ref' g'
  assume a: "eval_scaling zoom g smp_dat ref_dat num_tests layer_h max_stretch max_layer_stretch samp_h =
        Some (res, smp', ref', g')"
  from eval_scaling_tables[OF a]
  show c: "case ref_type_of ref_dat of
         Inl e \<Rightarrow> smp' = smp_dat \<and> ref' = ref_dat
       | Inr ref_type \<Rightarrow>
           smp' = rename ref_type ''smp_val'' smp_dat \<and>
           ref' = rename ref_type ''ref_val'' ref_dat" .
  from c show "map snd smp' = map snd smp_dat"
    by (auto simp: rename_cells split: sum.splits)
  from c show "map snd ref' = map snd ref_dat"
    by (auto simp: rename_cells split: sum.splits)
next
  show "snd (calc_skill result window_size drop_na) = (if drop_na then dropna result else result)"
    by (simp add: calc_skill_def)
qed

lemma random_tests_chain:
  "random_tests k g n ms mls = Some (Inr tests, g') \<Longrightarrow>
   \<exists>gs. gs 0 = g \<and> gs k = g' \<and> length tests = k \<and>
        (\<forall>t < k. random_scaling (gs t) n ms mls = Some (Inr (tests ! t, gs (Suc t))))"
proof (induction k arbitrary: g tests)
  case 0
  then show ?case by (intro exI[of _ "\<lambda>_. g"]) simp
next
  case (Suc k)
  from Suc.prems obtain test g1 rest where
    a: "random_scaling g n ms mls = Some (Inr (test, g1))"
    and b: "random_tests k g1 n ms mls = Some (Inr rest, g')"
    and c: "tests = test # rest"
    by (auto split: option.splits sum.splits prod.splits)
  from Suc.IH[OF b] obtain gs where gs: "gs 0 = g1" "gs k = g'" "length rest = k"
    "\<forall>t < k. random_scaling (gs t) n ms mls = Some (Inr (rest ! t, gs (Suc t)))"
    by blast
  define gs' where "gs' = (\<lambda>t. case t of 0 \<Rightarrow> g | Suc t' \<Rightarrow> gs t')"
  have "\<forall>t < Suc k. random_scaling (gs' t) n ms mls = Some (Inr (tests ! t, gs' (Suc t)))"
  proof (intro allI impI)
    fix t assume "t < Suc k"
    then show "random_scaling (gs' t) n ms mls = Some (Inr (tests ! t, gs' (Suc t)))"
      using a gs c by (cases t) (simp_all add: gs'_def)
  qed
  then show ?case
    using gs c by (intro exI[of _ gs']) (simp add: gs'_def)
qed

lemma emap_length: "emap f xs = Inr ys \<Longrightarrow> length ys = length xs"
  by (induction xs arbitrary: ys) (auto dest!: ebind_Inr)

lemma skill_all_length:
  "skill_all ps w = Inr (ss, ps') \<Longrightarrow> length ss = length ps \<and> length ps' = length ps"
proof (induction ps arbitrary: ss ps')
  case Nil
  then show ?case by simp
next
  case (Cons p ps)
  then show ?case
    by (auto split: prod.splits sum.splits dest!: ebind_Inr)
qed

lemma best_index_less: "skills \<noteq> [] \<Longrightarrow> best_index skills < length skills"
  by (induction skills rule: best_index.induct) auto

lemma score_trials_index:
  assumes "score_trials zoom smp_dat ref_dat ref_type tests num_tests layer_h samp_h = Inr (meta, result)"
  shows "meta_index meta < length tests \<and> meta_scale_coeff meta = tests ! meta_index meta"
proof -
  from assms obtain scaled extracted skills profiles idx where
    a: "emap (\<lambda>test.
        ebind (getattr smp_dat ''rel_height'') (\<lambda>rel_cells.
        ebind (getattr smp_dat ''smp_val'') (\<lambda>val_cells.
        ebind (to_reals rel_cells) (\<lambda>rel_height.
        ebind (to_reals val_cells) (\<lambda>smp_val.
          scale_profile zoom test rel_height smp_val layer_h None))))) tests = Inr scaled"
    and b: "emap (\<lambda>(dist, ref).
        ebind (getattr ref_dat ''rel_height'') (\<lambda>rel_cells.
        ebind (to_reals rel_cells) (\<lambda>rel_height.
          extract_samples dist ref rel_height samp_h))) scaled = Inr extracted"
    and c: "skill_all (map (\<lambda>profile. profile @ ref_dat) extracted) samp_h = Inr (skills, profiles)"
    and d: "py_index (min_scaling_idx skills) 0 = Inr idx"
    and e: "meta_index meta = idx" "meta_scale_coeff meta = tests ! idx"
    unfolding score_trials_def
    by (auto dest!: ebind_Inr split: prod.splits)
  from d have "skills \<noteq> []" "idx = best_index skills"
    by (auto simp: min_scaling_idx_def py_index_def split: if_splits)
  then have "idx < length skills" by (simp add: best_index_less)
  also have "length skills = length tests"
    using emap_length[OF a] emap_length[OF b] skill_all_length[OF c] by simp
  finally show ?thesis using e by simp
qed

text \<open>
  Claim C1 (as amended). \<^verbatim>\<open>eval_scaling\<close> has no seed: it draws from the global generator.
  A run that returns has drawn its candidates in sequence, trial \<open>t\<close> from the generator
  state that trial \<open>t - 1\<close> left, it leaves the generator advanced, and the scaling vector it
  selects is one of these candidates. The result is thus a function of the inputs and of
  the generator state at the call.
\<close>

theorem eval_scaling_shared_generator:
  assumes "eval_scaling zoom g smp_dat ref_dat num_tests layer_h max_stretch max_layer_stretch samp_h =
             Some (Inr (meta, result), smp', ref', g')"
  shows "\<exists>num_sections tests gs.
           layer_count smp' ref' num_tests layer_h = Inr num_sections \<and>
           length tests = nat num_tests \<and> gs 0 = g \<and> gs (nat num_tests) = g' \<and>
           (\<forall>t < nat num_tests.
              random_scaling (gs t) num_sections max_stretch max_layer_stretch =
                Some (Inr (tests ! t, gs (Suc t)))) \<and>
           meta_index meta < length tests \<and> meta_scale_coeff meta = tests ! meta_index meta"
proof -
  from eval_scaling_Inr[OF assms] obtain ref_type num_sections tests where
    lc: "layer_count smp' ref' num_tests layer_h = Inr num_sections" and
    rt: "random_tests (nat num_tests) g num_sections max_stretch max_layer_stretch = Some (Inr tests, g')" and
    sc: "score_trials zoom smp' ref' ref_type tests num_tests layer_h samp_h = Inr (meta, result)"
    by blast
  from random_tests_chain[OF rt] obtain gs where
    "gs 0 = g" "gs (nat num_tests) = g'" "length tests = nat num_tests"
    "\<forall>t < nat num_tests. random_scaling (gs t) num_sections max_stretch max_layer_stretch =
        Some (Inr (tests ! t, gs (Suc t)))"
    by blast
  with lc score_trials_index[OF sc] show ?thesis by blast
qed

section \<open>A concrete run of \<^verbatim>\<open>eval_scaling\<close>\<close>

lemma ref_type_ex: "ref_type_of ref_ex = Inr ''density''"
  by (simp add: ref_type_of_eq) (simp add: ref_ex_def columns_def)

lemma rename_ex:
  "rename ''density'' ''ref_val'' ref_ex = ref_ex'" "rename ''density'' ''smp_val'' smp_ex = smp_ex'"
  by (simp_all add: rename_def ref_ex_def ref_ex'_def smp_ex_def smp_ex'_def)

lemma layer_count_ex: "layer_count smp_ex' ref_ex' 1 4 = Inr 1"
  by (simp add: layer_count_def smp_ex'_def ref_ex'_def getitem_def getattr_def ebind_def
        py_index_def series_max_def np_amin2_def num_sections_of_def)

lemma random_scaling_one:
  assumes "unif_at g (Suc (ncalls g)) = u" "perm_at g (ncalls g) 1 = [0]"
    "\<bar>2 * m * u - m\<bar> \<le> mc"
  shows "random_scaling g 1 mc m = Some (Inr ([2 * m * u - m], g\<lparr>ncalls := ncalls g + 2\<rparr>))"
proof -
  have at: "attempt g (Suc 0) m = ([2 * m * u - m], g\<lparr>ncalls := ncalls g + 2\<rparr>)"
    using assms(1,2) by (simp add: attempt_def draw_stretch_eq)
  have wb: "within_budget g (nat 1) mc m"
    using assms(3) by (simp add: within_budget_def at)
  have "random_scaling_loop g 1 mc m = Some (Inr (round_result g (nat 1) m))"
    using wb by (subst loop_unfold) simp_all
  moreover have "round_result g (nat 1) m = ([0], [2 * m * u - m], g\<lparr>ncalls := ncalls g + 2\<rparr>)"
    using assms(2) by (simp add: round_result_def at)
  moreover have "np_argsort [0] = [0]"
    by (simp add: np_argsort_def)
  ultimately show ?thesis
    by (simp add: random_scaling_def fancy_index_def)
qed

lemma random_scaling_ex1:
  "random_scaling g_ex 1 (3/20) (3/4) = Some (Inr ([0], g_ex\<lparr>ncalls := 2\<rparr>))"
proof -
  have "random_scaling g_ex 1 (3/20) (3/4) =
          Some (Inr ([2 * (3/4) * (1/2) - 3/4], g_ex\<lparr>ncalls := ncalls g_ex + 2\<rparr>))"
    by (rule random_scaling_one) (simp_all add: g_ex_def)
  then show ?thesis by (simp add: g_ex_def)
qed

lemma random_scaling_ex2:
  "random_scaling (g_ex\<lparr>ncalls := 2\<rparr>) 1 (3/20) (3/4) =
     Some (Inr ([3/40], g_ex\<lparr>ncalls := 4\<rparr>))"
proof -
  have "random_scaling (g_ex\<lparr>ncalls := 2\<rparr>) 1 (3/20) (3/4) =
          Some (Inr ([2 * (3/4) * (11/20) - 3/4],
                (g_ex\<lparr>ncalls := 2\<rparr>)\<lparr>ncalls := ncalls (g_ex\<lparr>ncalls := 2\<rparr>) + 2\<rparr>))"
    by (rule random_scaling_one) (simp_all add: g_ex_def)
  then show ?thesis by (simp add: g_ex_def)
qed

lemma upt4: "[0..<4] = [0, 1, 2, 3::nat]"
  by code_simp

lemma upt5: "[0..<5] = [0, 1, 2, 3, 4::nat]"
  by code_simp

lemma zoom_hold_1: "zoom_hold [100, 200, 300, 400] 1 = [100, 200, 300, 400]"
  by (simp add: zoom_hold_def rint_def upt4)

lemma zoom_hold_5_4: "zoom_hold [100, 200, 300, 400] (5/4) = [100, 100, 200, 300, 400]"
  by (simp add: zoom_hold_def rint_def upt5)

lemma scale_profile_ex1:
  "scale_profile zoom_hold [0] [0, 1, 2, 3, 4] [100, 200, 300, 400, 500] 4 None =
     Inr ([0, 1, 2, 3], [100, 200, 300, 400])"
proof -
  let ?run = "scale_layers zoom_hold [0, 1, 2, 3, 4] [100, 200, 300, 400, 500] 4 1 [4] [0, 1, 2, 3]"
  have s0: "?run [0] (- 1, [], []) =
            ?run [] (4, [] @ [0, 1, 2, 3],
              [] @ zoom_hold [100, 200, 300, 400]
                (real (length [0, 1, 2, 3::real]) / real (length [0, 1, 2, 3::real])))"
    by (rule scale_layers_keep[where a=0 and b=4 and e=3 and s=0]) (simp_all add: eval_defs)
  have r: "?run [0] (- 1, [], []) = Inr ([0, 1, 2, 3], [100, 200, 300, 400])"
    unfolding s0 by (simp add: zoom_hold_1)
  show ?thesis
    by (rule scale_profile_eval[OF _ _ _ _ _ r])
       (simp_all add: step_of_def thickness_of_def np_arange0_def upt4)
qed

lemma scale_profile_ex2:
  "scale_profile zoom_hold [3/40] [0, 1, 2, 3, 4] [100, 200, 300, 400, 500] 4 None =
     Inr ([0, 1, 2, 3, 4], [100, 100, 200, 300, 400])"
proof -
  let ?run = "scale_layers zoom_hold [0, 1, 2, 3, 4] [100, 200, 300, 400, 500] 4 1 [43/10]
                [0, 1, 2, 3, 4]"
  have s0: "?run [0] (- 1, [], []) =
            ?run [] (4, [] @ [0, 1, 2, 3, 4],
              [] @ zoom_hold [100, 200, 300, 400]
                (real (length [0, 1, 2, 3, 4::real]) / real (length [0, 1, 2, 3::real])))"
    by (rule scale_layers_keep[where a=0 and b=4 and e=4 and s=0]) (simp_all add: eval_defs)
  have r: "?run [0] (- 1, [], []) = Inr ([0, 1, 2, 3, 4], [100, 100, 200, 300, 400])"
    unfolding s0 by (simp add: zoom_hold_5_4)
  show ?thesis
    by (rule scale_profile_eval[OF _ _ _ _ _ r])
       (simp_all add: step_of_def thickness_of_def np_arange0_def upt5)
qed

lemma extract_one:
  assumes "window a_height a_value d w = [m]" "length a_height = length a_value"
  shows "extract_samples a_height a_value [d] w =
     Inr [(''count_samp'', [Flt (Fin (if m = 0 then 0 else 1))]), (''mean_samp'', [Flt (Fin m)]),
          (''median_samp'', [Flt (Fin m)]), (''stdev_samp'', [Flt (Fin 0)])]"
  using assms(2)
  by (simp add: extract_samples_def assms(1) np_count_nonzero_def np_mean_def np_median_def
        np_std_def)

lemma rmse_one: "rmse_of [Fin a] [Fin b] = Fin \<bar>a - b\<bar>"
  by (simp add: rmse_of_def series_mean_def fsub_def)

lemma calc_skill_compare_ex:
  "calc_skill (compare_ex m) w True = (Inr (NaN, Fin \<bar>m - 201\<bar>), compare_ex m)"
proof -
  have d: "dropna (compare_ex m) = compare_ex m"
    by (simp add: dropna_def compare_ex_def ref_ex'_def nrows_def filter_rows_def)
  have s: "scored_rows (compare_ex m) True = Inr (compare_ex m)"
    unfolding scored_rows_def Let_def if_True d
    by (simp add: compare_ex_def ref_ex'_def getitem_def ebind_def filter_rows_def)
  show ?thesis
    unfolding calc_skill_def s if_True d
    by (simp add: ebind_def compare_ex_def ref_ex'_def getitem_def np_corrcoef10_def rmse_one)
qed

lemma ebind_simps: "ebind (Inr x) f = f x" "ebind (Inl e) f = Inl e"
  by (simp_all add: ebind_def)

lemma score_trials_ex:
  assumes "scale_profile zoom_hold [s] [0, 1, 2, 3, 4] [100, 200, 300, 400, 500] 4 None =
             Inr (wd, wv)"
    and "window wd wv 1 (1/2) = [m]" "length wd = length wv" "m \<noteq> 0"
  shows "score_trials zoom_hold smp_ex' ref_ex' ''density'' [ [s] ] 1 4 (1/2) =
           Inr (meta_ex s \<bar>m - 201\<bar>, compare_ex m)"
proof -
  have a: "emap (\<lambda>test.
        ebind (getattr smp_ex' ''rel_height'') (\<lambda>rel_cells.
        ebind (getattr smp_ex' ''smp_val'') (\<lambda>val_cells.
        ebind (to_reals rel_cells) (\<lambda>rel_height.
        ebind (to_reals val_cells) (\<lambda>smp_val.
          scale_profile zoom_hold test rel_height smp_val 4 None))))) [ [s] ] = Inr [(wd, wv)]"
    by (simp add: smp_ex'_def getattr_def ebind_def assms(1))
  have b: "emap (\<lambda>(dist, ref).
        ebind (getattr ref_ex' ''rel_height'') (\<lambda>rel_cells.
        ebind (to_reals rel_cells) (\<lambda>rel_height.
          extract_samples dist ref rel_height (1/2)))) [(wd, wv)] =
        Inr [ [(''count_samp'', [Flt (Fin 1)]), (''mean_samp'', [Flt (Fin m)]),
          (''median_samp'', [Flt (Fin m)]), (''stdev_samp'', [Flt (Fin 0)])] ]"
    using extract_one[OF assms(2,3)] assms(4)
    by (simp add: ref_ex'_def getattr_def ebind_def)
  have c: "skill_all (map (\<lambda>profile. profile @ ref_ex')
             [ [(''count_samp'', [Flt (Fin 1)]), (''mean_samp'', [Flt (Fin m)]),
               (''median_samp'', [Flt (Fin m)]), (''stdev_samp'', [Flt (Fin 0)])] ]) (1/2) =
           Inr ([(NaN, Fin \<bar>m - 201\<bar>)], [compare_ex m])"
    using calc_skill_compare_ex[of m "1/2"]
    by (simp add: compare_ex_def ebind_def)
  have n: "nrows ref_ex' = 1" "nrows (compare_ex m) = 1"
    by (simp_all add: nrows_def ref_ex'_def compare_ex_def)
  show ?thesis
    unfolding score_trials_def a ebind_simps b c
    by (simp add: ebind_def min_scaling_idx_def py_index_def meta_ex_def n)
qed

lemma eval_scaling_ex:
  assumes "random_scaling g 1 (3/20) (3/4) = Some (Inr ([s], g'))"
    and "score_trials zoom_hold smp_ex' ref_ex' ''density'' [ [s] ] 1 4 (1/2) = Inr out"
  shows "eval_scaling zoom_hold g smp_ex ref_ex 1 4 (3/20) (3/4) (1/2) =
           Some (Inr out, smp_ex', ref_ex', g')"
  by (simp add: eval_scaling_def ref_type_ex Let_def rename_ex layer_count_ex assms)

lemma eval_scaling_run1:
  "eval_scaling zoom_hold g_ex smp_ex ref_ex 1 4 (3/20) (3/4) (1/2) =
     Some (Inr (meta_ex 0 1, compare_ex 200), smp_ex', ref_ex', g_ex\<lparr>ncalls := 2\<rparr>)"
proof -
  have w: "window [0, 1, 2, 3] [100, 200, 300, 400] 1 (1/2) = [200]"
    by (simp add: window_def)
  have "score_trials zoom_hold smp_ex' ref_ex' ''density'' [ [0] ] 1 4 (1/2) =
           Inr (meta_ex 0 \<bar>200 - 201\<bar>, compare_ex 200)"
    by (rule score_trials_ex[OF scale_profile_ex1 w]) simp_all
  then have "score_trials zoom_hold smp_ex' ref_ex' ''density'' [ [0] ] 1 4 (1/2) =
           Inr (meta_ex 0 1, compare_ex 200)"
    by simp
  from eval_scaling_ex[OF random_scaling_ex1 this] show ?thesis .
qed

lemma eval_scaling_run2:
  "eval_scaling zoom_hold (g_ex\<lparr>ncalls := 2\<rparr>) smp_ex ref_ex 1 4 (3/20) (3/4) (1/2) =
     Some (Inr (meta_ex (3/40) 101, compare_ex 100), smp_ex', ref_ex', g_ex\<lparr>ncalls := 4\<rparr>)"
proof -
  have w: "window [0, 1, 2, 3, 4] [100, 100, 200, 300, 400] 1 (1/2) = [100]"
    by (simp add: window_def)
  have "score_trials zoom_hold smp_ex' ref_ex' ''density'' [ [3/40] ] 1 4 (1/2) =
           Inr (meta_ex (3/40) \<bar>100 - 201\<bar>, compare_ex 100)"
    by (rule score_trials_ex[OF scale_profile_ex2 w]) simp_all
  then have "score_trials zoom_hold smp_ex' ref_ex' ''density'' [ [3/40] ] 1 4 (1/2) =
           Inr (meta_ex (3/40) 101, compare_ex 100)"
    by simp
  from eval_scaling_ex[OF random_scaling_ex2 this] show ?thesis .
qed

text \<open>
  The same run on a reference table whose \<^verbatim>\<open>ssa\<close> cell is NaN: \<^verbatim>\<open>density\<close> is still the
  reference type, and the \<^verbatim>\<open>ssa\<close> column, still in the comparison table, makes
  \<^verbatim>\<open>dropna\<close> remove the only row.
\<close>

lemma rename_ssa_nan:
  "rename ''density'' ''ref_val'' ref_ssa_nan =
     [(''site'', [Str ''S1'']), (''height'', [Flt (Fin 4)]), (''rel_height'', [Flt (Fin 1)]),
      (''ref_val'', [Flt (Fin 201)]), (''ssa'', [Flt NaN]), (''grain_type'', [Str ''R''])]"
  by (simp add: rename_def ref_ssa_nan_def)

lemma eval_scaling_ssa_nan:
  "eval_scaling zoom_hold g_ex smp_ex ref_ssa_nan 1 4 (3/20) (3/4) (1/2) =
     Some (Inr (\<lparr>meta_index = 0, meta_r = NaN, meta_rmse = NaN, meta_ref_type = ''density'',
                  meta_scale_coeff = [0], meta_scale_per = 0, meta_n_obs = 1, meta_n_comp = 0,
                  meta_n_tests = 1\<rparr>,
                [(''count_samp'', []), (''mean_samp'', []), (''median_samp'', []),
                 (''stdev_samp'', []), (''site'', []), (''height'', []), (''rel_height'', []),
                 (''ref_val'', []), (''ssa'', []), (''grain_type'', [])]),
           smp_ex', rename ''density'' ''ref_val'' ref_ssa_nan, g_ex\<lparr>ncalls := 2\<rparr>)"
proof -
  let ?ref = "rename ''density'' ''ref_val'' ref_ssa_nan"
  let ?ext = "[(''count_samp'', [Flt (Fin 1)]), (''mean_samp'', [Flt (Fin 200)]),
               (''median_samp'', [Flt (Fin 200)]), (''stdev_samp'', [Flt (Fin 0)])]"
  let ?empty = "[(''count_samp'', []), (''mean_samp'', []), (''median_samp'', []),
                 (''stdev_samp'', []), (''site'', []), (''height'', []), (''rel_height'', []),
                 (''ref_val'', []), (''ssa'', []), (''grain_type'', [])] :: table"
  have rt: "ref_type_of ref_ssa_nan = Inr ''density''"
    by (simp add: ref_type_of_eq) (simp add: ref_ssa_nan_def columns_def)
  have lc: "layer_count smp_ex' ?ref 1 4 = Inr 1"
    by (simp add: rename_ssa_nan layer_count_def smp_ex'_def getitem_def getattr_def ebind_def
          py_index_def series_max_def np_amin2_def num_sections_of_def)
  have w: "window [0, 1, 2, 3] [100, 200, 300, 400] 1 (1/2) = [200]"
    by (simp add: window_def)
  have a: "emap (\<lambda>test.
        ebind (getattr smp_ex' ''rel_height'') (\<lambda>rel_cells.
        ebind (getattr smp_ex' ''smp_val'') (\<lambda>val_cells.
        ebind (to_reals rel_cells) (\<lambda>rel_height.
        ebind (to_reals val_cells) (\<lambda>smp_val.
          scale_profile zoom_hold test rel_height smp_val 4 None))))) [ [0] ] =
        Inr [([0, 1, 2, 3], [100, 200, 300, 400])]"
    by (simp add: smp_ex'_def getattr_def ebind_def scale_profile_ex1)
  have b: "emap (\<lambda>(wd, wv).
        ebind (getattr ?ref ''rel_height'') (\<lambda>rel_cells.
        ebind (to_reals rel_cells) (\<lambda>rel_height.
          extract_samples wd wv rel_height (1/2)))) [([0, 1, 2, 3], [100, 200, 300, 400])] =
        Inr [?ext]"
    using extract_one[OF w]
    by (simp add: rename_ssa_nan getattr_def ebind_def)
  have d: "dropna (?ext @ ?ref) = ?empty"
    by (simp add: rename_ssa_nan dropna_def nrows_def filter_rows_def)
  have cs: "calc_skill (?ext @ ?ref) (1/2) True = (Inr (NaN, NaN), ?empty)"
    unfolding calc_skill_def scored_rows_def Let_def if_True d
    by (simp add: getitem_def ebind_def filter_rows_def np_corrcoef10_def rmse_of_def
          series_mean_def)
  have c: "skill_all (map (\<lambda>profile. profile @ ?ref) [?ext]) (1/2) = Inr ([(NaN, NaN)], [?empty])"
    using cs by (simp add: ebind_def)
  have n: "nrows ?ref = 1" "nrows ?empty = 0"
    by (simp_all add: nrows_def rename_ssa_nan)
  have st: "score_trials zoom_hold smp_ex' ?ref ''density'' [ [0] ] 1 4 (1/2) =
     Inr (\<lparr>meta_index = 0, meta_r = NaN, meta_rmse = NaN, meta_ref_type = ''density'',
            meta_scale_coeff = [0], meta_scale_per = 0, meta_n_obs = 1, meta_n_comp = 0,
            meta_n_tests = 1\<rparr>, ?empty)"
    unfolding score_trials_def a ebind_simps b c
    by (simp add: ebind_def min_scaling_idx_def py_index_def n)
  show ?thesis
    by (simp add: eval_scaling_def rt Let_def rename_ex(2) lc random_scaling_ex1 st)
qed

subsection \<open>What the run shows\<close>

text \<open>
  The same call twice in one process: the second call starts from the generator the first
  one left, and selects another scaling vector with another RMSE.
\<close>

theorem eval_scaling_repeated_run_differs:
  "eval_scaling zoom_hold g_ex smp_ex ref_ex 1 4 (3/20) (3/4) (1/2) =
     Some (Inr (meta_ex 0 1, compare_ex 200), smp_ex', ref_ex', g_ex\<lparr>ncalls := 2\<rparr>) \<and>
   eval_scaling zoom_hold (g_ex\<lparr>ncalls := 2\<rparr>) smp_ex ref_ex 1 4 (3/20) (3/4) (1/2) =
     Some (Inr (meta_ex (3/40) 101, compare_ex 100), smp_ex', ref_ex', g_ex\<lparr>ncalls := 4\<rparr>) \<and>
   meta_scale_coeff (meta_ex 0 1) \<noteq> meta_scale_coeff (meta_ex (3/40) 101) \<and>
   meta_rmse (meta_ex 0 1) \<noteq> meta_rmse (meta_ex (3/40) 101)"
  using eval_scaling_run1 eval_scaling_run2 by (simp add: meta_ex_def)

theorem eval_scaling_shared_generator_witness:
  "eval_scaling zoom_hold g_ex smp_ex ref_ex 1 4 (3/20) (3/4) (1/2) =
     Some (Inr (meta_ex 0 1, compare_ex 200), smp_ex', ref_ex', g_ex\<lparr>ncalls := 2\<rparr>) \<and>
   (\<exists>num_sections tests gs.
      layer_count smp_ex' ref_ex' 1 4 = Inr num_sections \<and>
      length tests = nat 1 \<and> gs 0 = g_ex \<and> gs (nat 1) = g_ex\<lparr>ncalls := 2\<rparr> \<and>
      (\<forall>t < nat 1. random_scaling (gs t) num_sections (3/20) (3/4) =
          Some (Inr (tests ! t, gs (Suc t)))) \<and>
      meta_index (meta_ex 0 1) < length tests \<and>
      meta_scale_coeff (meta_ex 0 1) = tests ! meta_index (meta_ex 0 1))"
  using eval_scaling_shared_generator[OF eval_scaling_run1] eval_scaling_run1 by blast

text \<open>
  A reference table with both columns: the run does not fail, it scores against
  \<^verbatim>\<open>density\<close>.
\<close>

theorem eval_scaling_both_columns:
  "''density'' \<in> set (columns ref_ex) \<and> ''ssa'' \<in> set (columns ref_ex) \<and>
   eval_scaling zoom_hold g_ex smp_ex ref_ex 1 4 (3/20) (3/4) (1/2) =
     Some (Inr (meta_ex 0 1, compare_ex 200), smp_ex', ref_ex', g_ex\<lparr>ncalls := 2\<rparr>) \<and>
   meta_ref_type (meta_ex 0 1) = ''density''"
  using eval_scaling_run1 by (simp add: meta_ex_def) (simp add: ref_ex_def columns_def)

theorem eval_scaling_reference_type_witness:
  "''density'' \<notin> set (columns ref_none) \<and> ''ssa'' \<notin> set (columns ref_none) \<and>
   eval_scaling zoom_hold g_ex smp_ex ref_none 1 4 (3/20) (3/4) (1/2) =
     Some (Inl IndexError, smp_ex, ref_none, g_ex) \<and>
   ''density'' \<in> set (columns ref_ex) \<and> ''ssa'' \<in> set (columns ref_ex) \<and>
   eval_scaling_with ''density'' zoom_hold g_ex smp_ex ref_ex 1 4 (3/20) (3/4) (1/2) =
     Some (Inr (meta_ex 0 1, compare_ex 200), smp_ex', ref_ex', g_ex\<lparr>ncalls := 2\<rparr>) \<and>
   ref_ex' = rename ''density'' ''ref_val'' ref_ex \<and> ref_ex' \<noteq> ref_ex \<and>
   columns ref_ex' = [''site'', ''height'', ''rel_height'', ''ref_val'', ''ssa'', ''grain_type''] \<and>
   ''density'' \<notin> set (columns ref_ssa) \<and> ''ssa'' \<in> set (columns ref_ssa) \<and>
   eval_scaling zoom_hold g_ex smp_ex ref_ssa 1 4 (3/20) (3/4) (1/2) =
     eval_scaling_with ''ssa'' zoom_hold g_ex smp_ex ref_ssa 1 4 (3/20) (3/4) (1/2)"
proof -
  have n: "''density'' \<notin> set (columns ref_none) \<and> ''ssa'' \<notin> set (columns ref_none)"
    by (simp add: ref_none_def columns_def)
  have d: "''density'' \<in> set (columns ref_ex)" and d': "''ssa'' \<in> set (columns ref_ex)"
    by (simp_all add: ref_ex_def columns_def)
  have s: "''density'' \<notin> set (columns ref_ssa) \<and> ''ssa'' \<in> set (columns ref_ssa)"
    by (simp add: ref_ssa_def columns_def)
  note none = eval_scaling_reference_type[of ref_none zoom_hold g_ex smp_ex 1 4 "3/20" "3/4" "1/2"]
  note both = eval_scaling_reference_type[of ref_ex zoom_hold g_ex smp_ex 1 4 "3/20" "3/4" "1/2"]
  note only = eval_scaling_reference_type[of ref_ssa zoom_hold g_ex smp_ex 1 4 "3/20" "3/4" "1/2"]
  from none n have a: "eval_scaling zoom_hold g_ex smp_ex ref_none 1 4 (3/20) (3/4) (1/2) =
     Some (Inl IndexError, smp_ex, ref_none, g_ex)" by blast
  from both d have b: "eval_scaling zoom_hold g_ex smp_ex ref_ex 1 4 (3/20) (3/4) (1/2) =
     eval_scaling_with ''density'' zoom_hold g_ex smp_ex ref_ex 1 4 (3/20) (3/4) (1/2)"
    by blast
  from both d eval_scaling_run1
  have c: "ref_ex' = rename ''density'' ''ref_val'' ref_ex \<and> ref_ex' \<noteq> ref_ex \<and>
     columns ref_ex' = map (\<lambda>n. if n = ''density'' then ''ref_val'' else n) (columns ref_ex)"
    by blast
  have cols: "map (\<lambda>n. if n = ''density'' then ''ref_val'' else n) (columns ref_ex) =
     [''site'', ''height'', ''rel_height'', ''ref_val'', ''ssa'', ''grain_type'']"
    by (simp add: ref_ex_def columns_def)
  from only s have e: "eval_scaling zoom_hold g_ex smp_ex ref_ssa 1 4 (3/20) (3/4) (1/2) =
     eval_scaling_with ''ssa'' zoom_hold g_ex smp_ex ref_ssa 1 4 (3/20) (3/4) (1/2)"
    by blast
  show ?thesis
    using n a d d' b[symmetric] eval_scaling_run1 c cols s e by simp
qed

text \<open>
  After the run both tables of the caller have a renamed column, and \<^verbatim>\<open>calc_skill\<close>
  has removed the row with the NaN from the table it was given.
\<close>

theorem tables_mutated:
  "eval_scaling zoom_hold g_ex smp_ex ref_ex 1 4 (3/20) (3/4) (1/2) =
     Some (Inr (meta_ex 0 1, compare_ex 200), smp_ex', ref_ex', g_ex\<lparr>ncalls := 2\<rparr>) \<and>
   smp_ex' \<noteq> smp_ex \<and> ref_ex' \<noteq> ref_ex \<and>
   snd (calc_skill two_rows 15 True) \<noteq> two_rows"
proof -
  have "snd (calc_skill two_rows 15 True) =
          [(''mean_samp'', [Flt (Fin 1)]), (''ref_val'', [Flt (Fin 2)]), (''grain_type'', [Str ''R''])]"
    by (simp add: calc_skill_def dropna_def two_rows_def nrows_def filter_rows_def upt_rec)
  then show ?thesis
    using eval_scaling_run1
    by (simp add: two_rows_def smp_ex_def smp_ex'_def ref_ex_def ref_ex'_def)
qed

theorem tables_changed_in_place_witness:
  "eval_scaling zoom_hold g_ex smp_ex ref_ex 1 4 (3/20) (3/4) (1/2) =
     Some (Inr (meta_ex 0 1, compare_ex 200), smp_ex', ref_ex', g_ex\<lparr>ncalls := 2\<rparr>) \<and>
   map snd smp_ex' = map snd smp_ex \<and> map snd ref_ex' = map snd ref_ex \<and>
   smp_ex' = rename ''density'' ''smp_val'' smp_ex \<and>
   ref_ex' = rename ''density'' ''ref_val'' ref_ex \<and>
   snd (calc_skill two_rows 15 True) = dropna two_rows"
proof -
  note t = tables_changed_in_place[of zoom_hold g_ex smp_ex ref_ex 1 4 "3/20" "3/4" "1/2" two_rows 15 True]
  from t eval_scaling_run1
  have "map snd smp_ex' = map snd smp_ex \<and> map snd ref_ex' = map snd ref_ex \<and>
      (case ref_type_of ref_ex of
         Inl e \<Rightarrow> smp_ex' = smp_ex \<and> ref_ex' = ref_ex
       | Inr ref_type \<Rightarrow>
           smp_ex' = rename ref_type ''smp_val'' smp_ex \<and>
           ref_ex' = rename ref_type ''ref_val'' ref_ex)"
    by blast
  moreover from t have "snd (calc_skill two_rows 15 True) = dropna two_rows" by simp
  ultimately show ?thesis using eval_scaling_run1 by (simp add: ref_type_ex)
qed

end
